theory Spec2Isabelle
  imports Main "HOL-Library.Word" "HOL-Library.Multiset"
begin

unbundle bit_operations_syntax

section \<open>Common JavaScript notions\<close>

text \<open>
  Strings are lists of characters; a character stands for one code unit below 256, which
  covers the base58 and hexadecimal alphabets the library works on. A \<open>Buffer\<close> is a list
  of bytes. A call that may throw returns a sum: \<open>Inl\<close> carries the text of the thrown
  error, \<open>Inr\<close> the value returned.
\<close>

type_synonym buffer = "8 word list"

text \<open>\<open>Array.prototype.indexOf\<close>: the first position of the element, or \<open>-1\<close>.\<close>

fun indexOf :: "'a list \<Rightarrow> 'a \<Rightarrow> int" where
  "indexOf [] x = - 1"
| "indexOf (y # ys) x = (if y = x then 0 else (let i = indexOf ys x in if i = - 1 then - 1 else i + 1))"

text \<open>
  \<open>String.prototype.trim\<close> removes white space at both ends. The white space characters
  below 256 are tab, line feed, vertical tab, form feed, carriage return, space and the
  no-break space.
\<close>

definition js_whitespace :: "char \<Rightarrow> bool" where
  "js_whitespace c = (c \<in> set [CHR 0x09, CHR 0x0A, CHR 0x0B, CHR 0x0C, CHR 0x0D, CHR 0x20, CHR 0xA0])"

definition trim :: "string \<Rightarrow> string" where
  "trim s = rev (dropWhile js_whitespace (rev (dropWhile js_whitespace s)))"

text \<open>
  \<open>Buffer.from(s, 'hex')\<close> reads two hexadecimal digits per byte, in either case, and
  stops in front of the first pair that is not two hexadecimal digits (also a single
  trailing character). \<open>buf.toString('hex')\<close> writes two lower-case digits per byte.
\<close>

definition hex_digit :: "char \<Rightarrow> nat option" where
  "hex_digit c =
     (let n = of_char c :: nat in
      if 48 \<le> n \<and> n \<le> 57 then Some (n - 48)
      else if 97 \<le> n \<and> n \<le> 102 then Some (n - 87)
      else if 65 \<le> n \<and> n \<le> 70 then Some (n - 55)
      else None)"

fun buffer_from_hex :: "string \<Rightarrow> buffer" where
  "buffer_from_hex (a # b # rest) =
     (case hex_digit a of
        None \<Rightarrow> []
      | Some h \<Rightarrow>
          (case hex_digit b of
             None \<Rightarrow> []
           | Some l \<Rightarrow> word_of_nat (16 * h + l) # buffer_from_hex rest))"
| "buffer_from_hex [a] = []"
| "buffer_from_hex [] = []"

definition hex_char :: "nat \<Rightarrow> char" where
  "hex_char n = ''0123456789abcdef'' ! n"

definition buffer_to_hex :: "buffer \<Rightarrow> string" where
  "buffer_to_hex bs = concat (map (\<lambda>b. [hex_char (unat b div 16), hex_char (unat b mod 16)]) bs)"

section \<open>Module keys\<close>

datatype network = MAINNET | TESTNET

text \<open>
  The packages \<open>bs58check\<close> and \<open>bip32\<close> and the function \<open>networkData\<close> of module
  \<open>networks\<close> are collaborators of this module: their code is not part of it, and the
  functions below take them as a record. \<open>bs58check_decode\<close> returns the payload or the
  message of the error it throws; \<open>bip32_fromBase58\<close> returns normally or throws, and the
  text it carries then is the thrown value as the template literal prints it.
\<close>

record 'p key_libs =
  bs58check_decode :: "string \<Rightarrow> string + buffer"
  bs58check_encode :: "buffer \<Rightarrow> string"
  bip32_fromBase58 :: "string \<Rightarrow> 'p \<Rightarrow> string + unit"
  networkData :: "network \<Rightarrow> 'p"

definition extendedPublicKeyVersions :: "(string \<times> string) list" where
  "extendedPublicKeyVersions =
     [(''xpub'', ''0488b21e''),
      (''ypub'', ''049d7cb2''),
      (''zpub'', ''04b2430c''),
      (''Ypub'', ''0295b43f''),
      (''Zpub'', ''02aa7ed3''),
      (''tpub'', ''043587cf''),
      (''upub'', ''044a5262''),
      (''vpub'', ''045f1cf6''),
      (''Upub'', ''024289ef''),
      (''Vpub'', ''02575483'')]"

text \<open>\<open>!~i\<close> holds exactly when the bitwise complement of \<open>i\<close> is zero. \<open>None\<close> is \<open>null\<close>.\<close>

definition validatePrefix :: "string \<Rightarrow> string \<Rightarrow> string option" where
  "validatePrefix prefix prefixType =
     (if NOT (indexOf (map fst extendedPublicKeyVersions) prefix) = 0
      then Some (''Invalid '' @ prefixType @ '' version for extended public key conversion'')
      else None)"

text \<open>
  The result object of a conversion. The property \<open>message\<close> is absent from the objects
  that report an error (\<open>None\<close>); \<open>error\<close> is present in every object the module builds.
\<close>

record converted_key =
  extendedPublicKey :: string
  message :: "string option"
  error :: string

text \<open>
  The \<open>try\<close> block of \<open>extendedPublicKeyConvert\<close>: a throw of \<open>bs58check.decode\<close> lands in
  the \<open>catch\<close>, and so would \<open>Buffer.from\<close> on a prefix missing from the table (a
  \<open>TypeError\<close>), which the check of the target prefix excludes.
\<close>

definition extendedPublicKeyConvert :: "'p key_libs \<Rightarrow> string \<Rightarrow> string \<Rightarrow> converted_key" where
  "extendedPublicKeyConvert L key targetPrefix =
     (case validatePrefix targetPrefix ''target'' of
        Some targetError \<Rightarrow> \<lparr>extendedPublicKey = key, message = None, error = targetError\<rparr>
      | None \<Rightarrow>
          (let sourcePrefix = take 4 key in
           case validatePrefix sourcePrefix ''source'' of
             Some sourceError \<Rightarrow> \<lparr>extendedPublicKey = key, message = None, error = sourceError\<rparr>
           | None \<Rightarrow>
               (case bs58check_decode L (trim key) of
                  Inl err \<Rightarrow>
                    \<lparr>extendedPublicKey = key, message = None,
                     error = ''Unable to convert extended public key: '' @ err\<rparr>
                | Inr decodedExtendedPublicKey \<Rightarrow>
                    (case map_of extendedPublicKeyVersions targetPrefix of
                       None \<Rightarrow>
                         \<lparr>extendedPublicKey = key, message = None,
                          error = ''Unable to convert extended public key: ''
                            @ ''The first argument must be of type string''\<rparr>
                     | Some version \<Rightarrow>
                         (let extendedPublicKeyNoPrefix = drop 4 decodedExtendedPublicKey;
                              extendedPublicKeyNewPrefix =
                                buffer_from_hex version @ extendedPublicKeyNoPrefix
                          in \<lparr>extendedPublicKey = bs58check_encode L extendedPublicKeyNewPrefix,
                              message = Some (''Your extended public key has been converted from ''
                                @ sourcePrefix @ '' to '' @ targetPrefix),
                              error = ''''\<rparr>)))))"

definition extendedPublicKeyNetworkValidateion :: "string \<Rightarrow> network \<Rightarrow> string" where
  "extendedPublicKeyNetworkValidateion key net =
     (let requiredPrefix = [CHR 0x27] @ ''xpub'' @ [CHR 0x27]
            @ (if net = TESTNET then '' or 'tpub'' @ [CHR 0x27] else '''');
          notXpubError = ''Extended public key must begin with '' @ requiredPrefix @ ''.'';
          prefix = take 4 key
      in if \<not> (prefix = ''xpub'' \<or> (net = TESTNET \<and> prefix = ''tpub'')) then notXpubError else '''')"

definition preExtendedPublicKeyValidation :: "string \<Rightarrow> network \<Rightarrow> string" where
  "preExtendedPublicKeyValidation key net =
     (if key = '''' then ''Extended public key cannot be blank.''
      else if length key < 111 then ''Extended public key length is too short.''
      else '''')"

definition validateExtendedPublicKey :: "'p key_libs \<Rightarrow> string \<Rightarrow> network \<Rightarrow> string" where
  "validateExtendedPublicKey L inputString net =
     (let preliminaryErrors = preExtendedPublicKeyValidation inputString net in
      if preliminaryErrors \<noteq> '''' then preliminaryErrors
      else
        (let networkError = extendedPublicKeyNetworkValidateion inputString net in
         if networkError \<noteq> '''' then networkError
         else
           (case bip32_fromBase58 L inputString (networkData L net) of
              Inl e \<Rightarrow> ''Invalid extended public key: '' @ e
            | Inr u \<Rightarrow> '''')))"

definition convertAndValidateExtendedPublicKey :: "'p key_libs \<Rightarrow> string \<Rightarrow> network \<Rightarrow> converted_key" where
  "convertAndValidateExtendedPublicKey L key net =
     (let targetPrefix = (if net = TESTNET then ''tpub'' else ''xpub'');
          preliminaryErrors = preExtendedPublicKeyValidation key net
      in if preliminaryErrors \<noteq> ''''
         then \<lparr>extendedPublicKey = key, message = None, error = preliminaryErrors\<rparr>
         else if extendedPublicKeyNetworkValidateion key net = ''''
                 \<and> validateExtendedPublicKey L key net = ''''
         then \<lparr>extendedPublicKey = key, message = Some '''', error = ''''\<rparr>
         else
           (let convertedExtendedPublicKey = extendedPublicKeyConvert L key targetPrefix in
            if extendedPublicKey convertedExtendedPublicKey \<noteq> key
            then
              (let extendedPublicKeyValidation =
                     validateExtendedPublicKey L (extendedPublicKey convertedExtendedPublicKey) net
               in if extendedPublicKeyValidation = '''' then convertedExtendedPublicKey
                  else \<lparr>extendedPublicKey = key, message = None, error = extendedPublicKeyValidation\<rparr>)
            else convertedExtendedPublicKey))"

text \<open>
  The byte read at position 64 is \<open>undefined\<close> when the buffer is shorter, and
  \<open>undefined & 1\<close> is 0. \<open>slice(1, 33)\<close> keeps what there is of positions 1 to 32.
\<close>

definition compressPublicKey :: "string \<Rightarrow> string" where
  "compressPublicKey publicKey =
     (let pubkeyBuffer = buffer_from_hex publicKey;
          low = (if 64 < length pubkeyBuffer then (pubkeyBuffer ! 64) AND 1 else 0);
          prefix = (if low \<noteq> 0 then 0x03 else 0x02);
          prefixBuffer = [prefix]
      in buffer_to_hex (prefixBuffer @ take 32 (drop 1 pubkeyBuffer)))"

subsection \<open>Notions the properties of module keys are stated with\<close>

definition known_prefixes :: "string list" where
  "known_prefixes = map fst extendedPublicKeyVersions"

definition version_bytes :: "string \<Rightarrow> buffer" where
  "version_bytes p = (case map_of extendedPublicKeyVersions p of None \<Rightarrow> [] | Some v \<Rightarrow> buffer_from_hex v)"

text \<open>The prefixes a network accepts without conversion.\<close>

definition canonical_prefixes :: "network \<Rightarrow> string list" where
  "canonical_prefixes net = (if net = TESTNET then [''xpub'', ''tpub''] else [''xpub''])"

text \<open>
  The invariant of a conversion result for the input \<open>key\<close>: not both a non-empty message
  and a non-empty error, and a non-empty error comes with the input key.
\<close>

definition has_message :: "converted_key \<Rightarrow> bool" where
  "has_message r = (case message r of None \<Rightarrow> False | Some m \<Rightarrow> m \<noteq> '''')"

definition conversion_invariant :: "string \<Rightarrow> converted_key \<Rightarrow> bool" where
  "conversion_invariant key r =
     (\<not> (has_message r \<and> error r \<noteq> '''') \<and> (error r \<noteq> '''' \<longrightarrow> extendedPublicKey r = key))"

subsection \<open>The base58 text of \<open>bs58check\<close>\<close>

text \<open>
  \<open>bs58check.encode\<close> appends four checksum bytes to the payload and writes the bytes in
  base 58 (package \<open>base-x\<close>): a \<open>1\<close> for every leading zero byte, then the digits of the
  number that the bytes spell, the most significant first, in the alphabet of Bitcoin.
  The model of the module takes \<open>bs58check\<close> as a parameter; the text is defined here to
  say which string goes with which version bytes, and for the sample keys below. The
  checksum, a double SHA-256, is not modelled: it stands behind the last characters only.
\<close>

definition base58_alphabet :: string where
  "base58_alphabet = ''123456789ABCDEFGHJKLMNPQRSTUVWXYZabcdefghijkmnopqrstuvwxyz''"

fun base58_digits :: "nat \<Rightarrow> nat list" where
  "base58_digits n = (if n = 0 then [] else base58_digits (n div 58) @ [n mod 58])"

declare base58_digits.simps [simp del]

definition buffer_to_nat :: "buffer \<Rightarrow> nat" where
  "buffer_to_nat bs = foldl (\<lambda>n b. 256 * n + unat b) 0 bs"

definition base58_text :: "buffer \<Rightarrow> string" where
  "base58_text bs =
     replicate (length (takeWhile (\<lambda>b. b = 0) bs)) CHR ''1''
       @ map (\<lambda>d. base58_alphabet ! d) (base58_digits (buffer_to_nat bs))"

subsection \<open>Sample keys\<close>

text \<open>
  An excerpt of the collaborators on eight keys: two BIP32 payloads (the second one of
  depth 0 with a parent fingerprint, which \<open>bip32\<close> refuses), each under the version bytes
  the table gives for \<open>xpub\<close>, \<open>tpub\<close>, \<open>ypub\<close> and \<open>zpub\<close>, with the strings
  \<open>bs58check\<close> encodes them to. Decoding is a table of the eight strings; encoding is the
  base58 text of the bytes and their checksum, which is given for the eight byte strings.
\<close>

definition sample_payload :: buffer where
  "sample_payload = buffer_from_hex
     ''0349ed9bb480000004900c2fcf5228448a30987758bb86104dd9992d8059aa0be1314590ed52c883a803c0550bca5e25a38d4994caf31fb6e0257cee86f75e34161956b14a80e7e33bc4''"

definition orphan_payload :: buffer where
  "orphan_payload = buffer_from_hex
     ''000000000100000000900c2fcf5228448a30987758bb86104dd9992d8059aa0be1314590ed52c883a803c0550bca5e25a38d4994caf31fb6e0257cee86f75e34161956b14a80e7e33bc4''"

definition sample_xpub :: string where
  "sample_xpub = ''xpub6CCHViYn5VzKSmKD9cK9LBDPz9wBLV7owXJcNDioETNvhqhVtj3ABnVUERN9aV1RGTX9YpyPHnC4Ekzjnr7TZthsJRBiXA4QCeXNHEwxLab''"

definition sample_tpub :: string where
  "sample_tpub = ''tpubDCZv1xNTnmwmiZW4boJEY6YmKH2qKscsV9tuimmwaN8pT8NCxwtFLEAJUTSw6yxf4N44AQVFpt26vwVMBhxhTLAAN1w2Cgidnc7n3JVnBDH''"

definition sample_ypub :: string where
  "sample_ypub = ''ypub6X2YoPDhEBXoJ4WKyy6mYGJuA85dH77Jrdpq9ccgcTkokwWj9PCior9cFdKjaPfLg6dxJJZwkSYc83cJWYXUN8PUAkt974stUNb1ftNHLgS''"

definition sample_zprv :: string where
  "sample_zprv = ''zprvAcsThYMiYVWyvscyiJMPPDTfn4PapGNxQXRT8d6xS8bhwEzorW42t7VGRe93V8Afg1Jm9L3aYM9hPtg5LaSwQWUuX6GBqetKpEmRJMoUSBe''"

definition orphan_xpub :: string where
  "orphan_xpub = ''xpub661MyMwTWkfYcYC99A55mCRZA479kp8rdapznJEJqqMScbto6tqvXW9nM5vYuHxDSAbmAS36b4mVvnY3ffDxvRKXA9NjfaXT39J8u6JCA5g''"

definition orphan_tpub :: string where
  "orphan_tpub = ''tpubD6NzVbm9E2cztLNzbM4Ay7kvVBCokCdvBDRJ8rHTBk7LMtZWB7h1fwpcb81LRnuTE58fn1Yy8AbYcy2f4X5CormpDk83M7Bgd6tYfAUxQAu''"

definition orphan_ypub :: string where
  "orphan_ypub = ''ypub6QqdH2cNfSD2TqPFyWrhyHX4L2FbhS8MYhMDZh8CDqjKfhi2MZ1V9ZovNHt8uCc8qoiZuudf3j83p59cPMdyif182V5AFVLwJsMnHkRFpbY''"

definition orphan_zprv :: string where
  "orphan_zprv = ''zprvAWgYBBkPykCD6eVuhr7KpEfpwxZZEbQ16awqYhcU3WaDr1C74froDq9aYJhSow7TqiPNkw7Hqdj95vDPDPZSm36ZNpTCz5MNejYBvCwo97S''"

definition sample_keys :: "(string \<times> buffer) list" where
  "sample_keys =
     [(sample_xpub, version_bytes ''xpub'' @ sample_payload),
      (sample_tpub, version_bytes ''tpub'' @ sample_payload),
      (sample_ypub, version_bytes ''ypub'' @ sample_payload),
      (sample_zprv, version_bytes ''zpub'' @ sample_payload),
      (orphan_xpub, version_bytes ''xpub'' @ orphan_payload),
      (orphan_tpub, version_bytes ''tpub'' @ orphan_payload),
      (orphan_ypub, version_bytes ''ypub'' @ orphan_payload),
      (orphan_zprv, version_bytes ''zpub'' @ orphan_payload)]"

definition sample_decode :: "string \<Rightarrow> string + buffer" where
  "sample_decode s = (case map_of sample_keys s of None \<Rightarrow> Inl ''Invalid checksum'' | Some b \<Rightarrow> Inr b)"

text \<open>The checksums of the eight byte strings, as \<open>bs58check\<close> computes them.\<close>

definition sample_checksums :: "(buffer \<times> buffer) list" where
  "sample_checksums =
     [(version_bytes ''xpub'' @ sample_payload, [0x28, 0x98, 0x4e, 0xe0]),
      (version_bytes ''tpub'' @ sample_payload, [0x8c, 0xa2, 0x59, 0x98]),
      (version_bytes ''ypub'' @ sample_payload, [0xc6, 0x3f, 0x5b, 0xcb]),
      (version_bytes ''zpub'' @ sample_payload, [0x61, 0x2d, 0x96, 0xc5]),
      (version_bytes ''xpub'' @ orphan_payload, [0x25, 0xb4, 0x08, 0xbb]),
      (version_bytes ''tpub'' @ orphan_payload, [0xa2, 0xa8, 0x62, 0x62]),
      (version_bytes ''ypub'' @ orphan_payload, [0xde, 0xd5, 0x23, 0x7f]),
      (version_bytes ''zpub'' @ orphan_payload, [0x56, 0x3f, 0xc0, 0x45])]"

definition sample_checksum :: "buffer \<Rightarrow> buffer" where
  "sample_checksum b = (case map_of sample_checksums b of None \<Rightarrow> [0, 0, 0, 0] | Some c \<Rightarrow> c)"

definition sample_encode :: "buffer \<Rightarrow> string" where
  "sample_encode b = base58_text (b @ sample_checksum b)"

definition sample_fromBase58 :: "string \<Rightarrow> network \<Rightarrow> string + unit" where
  "sample_fromBase58 s net =
     (case map_of sample_keys s of
        None \<Rightarrow> Inl ''Error: Invalid checksum''
      | Some b \<Rightarrow>
          if take 4 b \<noteq> version_bytes (if net = TESTNET then ''tpub'' else ''xpub'')
          then Inl ''TypeError: Invalid network version''
          else if take 5 (drop 4 b) \<noteq> [0, 0, 0, 0, 0] \<and> b ! 4 = 0
          then Inl ''TypeError: Invalid parent fingerprint''
          else Inr ())"

definition sample_libs :: "network key_libs" where
  "sample_libs =
     \<lparr>bs58check_decode = sample_decode, bs58check_encode = sample_encode,
      bip32_fromBase58 = sample_fromBase58, networkData = (\<lambda>net. net)\<rparr>"

section \<open>Module transactions\<close>

text \<open>A number in a template literal is printed in decimal.\<close>

fun string_of_nat :: "nat \<Rightarrow> string" where
  "string_of_nat n =
     (if n < 10 then [''0123456789'' ! n]
      else string_of_nat (n div 10) @ [''0123456789'' ! (n mod 10)])"

declare string_of_nat.simps [simp del]

text \<open>\<open>Array.prototype.join\<close> on strings.\<close>

fun join :: "string \<Rightarrow> string list \<Rightarrow> string" where
  "join sep [] = ''''"
| "join sep [x] = x"
| "join sep (x # y # ys) = x @ sep @ join sep (y # ys)"

subsection \<open>Data\<close>

text \<open>
  Modelled from the spec: the address type constants of modules \<open>p2sh\<close>, \<open>p2sh_p2wsh\<close> and
  \<open>p2wsh\<close>, which are not part of the source at hand. The spec has three address types:
  legacy, wrapped segwit and native segwit.
\<close>

datatype address_type = P2SH | P2SH_P2WSH | P2WSH

text \<open>A payment object of \<open>bitcoinjs-lib\<close>, as far as the module reads it.\<close>

record payment =
  payment_input :: buffer
  payment_output :: buffer

text \<open>
  Modelled from the spec: the multisig descriptor of module \<open>multisig\<close>, an opaque value
  that exposes the count of required signers, the ordered list of public keys, the
  address type and the redeem and witness scripts. The fields bear the names of the
  accessors the module calls, so \<open>multisigPublicKeys m\<close> reads as in the source;
  \<open>multisig_network\<close> is the property \<open>network\<close>.
\<close>

record multisig =
  multisigRequiredSigners :: nat
  multisigPublicKeys :: "string list"
  multisigAddressType :: address_type
  multisigRedeemScript :: payment
  multisigWitnessScript :: payment
  multisig_network :: network

record multisig_input =
  input_txid :: string
  input_index :: nat
  input_multisig :: multisig

record tx_output =
  output_address :: string
  output_amountSats :: int

text \<open>A \<open>Transaction\<close> of \<open>bitcoinjs-lib\<close>: the fields of an input that the module writes.\<close>

record tx_in =
  in_hash :: string
  in_index :: nat
  in_script :: buffer
  in_witness :: "buffer list"

record transaction =
  tx_version :: nat
  ins :: "tx_in list"
  outs :: "(buffer \<times> int) list"

text \<open>
  An entry of a row of the signature matrix is a string or absent (\<open>undefined\<close>, \<open>null\<close>:
  \<open>None\<close>). \<open>Boolean(x)\<close> is false for an absent entry and for the empty string. An
  index beyond the end of an array reads \<open>undefined\<close>.
\<close>

type_synonym signature_row = "string option list"

definition truthy :: "string option \<Rightarrow> bool" where
  "truthy x = (case x of None \<Rightarrow> False | Some s \<Rightarrow> s \<noteq> '''')"

definition at_index :: "'a option list \<Rightarrow> nat \<Rightarrow> 'a option" where
  "at_index xs i = (if i < length xs then xs ! i else None)"

text \<open>
  An object used as a dictionary has the properties of \<open>Object.prototype\<close> besides its
  own. Reading \<open>obj[k]\<close> gives the value the object has at \<open>k\<close>; else, for the names below,
  the inherited property (a function, for \<open>__proto__\<close> the prototype itself), which is
  truthy; else \<open>undefined\<close> (\<open>None\<close>). The own values of the dictionary of this module are
  strings.
\<close>

definition object_prototype_properties :: "string list" where
  "object_prototype_properties =
     [''constructor'', ''__defineGetter__'', ''__defineSetter__'', ''hasOwnProperty'',
      ''__lookupGetter__'', ''__lookupSetter__'', ''isPrototypeOf'', ''propertyIsEnumerable'',
      ''toString'', ''valueOf'', ''__proto__'', ''toLocaleString'']"

datatype property = Own string | Inherited string

definition get_property :: "(string \<rightharpoonup> string) \<Rightarrow> string \<Rightarrow> property option" where
  "get_property obj k =
     (case obj k of
        Some v \<Rightarrow> Some (Own v)
      | None \<Rightarrow> if k \<in> set object_prototype_properties then Some (Inherited k) else None)"

definition property_truthy :: "property option \<Rightarrow> bool" where
  "property_truthy x =
     (case x of
        None \<Rightarrow> False
      | Some p \<Rightarrow> (case p of Own s \<Rightarrow> s \<noteq> '''' | Inherited k \<Rightarrow> True))"

subsection \<open>Collaborators\<close>

text \<open>
  The functions of modules \<open>inputs\<close>, \<open>outputs\<close>, \<open>signatures\<close>, \<open>multisig\<close>, \<open>script\<close>
  and \<open>networks\<close> and of the packages \<open>bitcoinjs-lib\<close> and \<open>bignumber.js\<close> that this
  module calls are taken as a record. A validator returns its error message, empty when
  there is none. \<open>validateMultisigSignature\<close> returns the public key (\<open>Some\<close>) or
  \<open>false\<close> (\<open>None\<close>), or throws; the text of a throw is the thrown value as a template
  literal prints it. \<open>signatureNoSighashType\<close> is given on strings; when it is called
  with an inherited property of \<open>Object.prototype\<close> instead, named by the argument of
  \<open>signatureNoSighashTypeOfObject\<close>, it throws or returns a value, given by whether it is
  truthy and by the text it prints as. The transaction builder is a state of type \<open>'tb\<close>
  that the calls pass on. \<open>BigNumber(n).toNumber()\<close> is \<open>n\<close> for an amount in satoshis, and
  \<open>Transaction.fromHex(t.toHex())\<close> is a copy of \<open>t\<close>.
\<close>

record ('tb, 'p) tx_libs =
  validateMultisigInputs :: "multisig_input list \<Rightarrow> string"
  validateOutputs :: "network \<Rightarrow> tx_output list \<Rightarrow> string"
  tx_networkData :: "network \<Rightarrow> 'p"
  newTransactionBuilder :: 'tb
  setVersion :: "'tb \<Rightarrow> nat \<Rightarrow> 'tb"
  setNetwork :: "'tb \<Rightarrow> 'p \<Rightarrow> 'tb"
  addInput :: "'tb \<Rightarrow> string \<Rightarrow> nat \<Rightarrow> string + 'tb"
  addOutput :: "'tb \<Rightarrow> string \<Rightarrow> int \<Rightarrow> string + 'tb"
  buildIncomplete :: "'tb \<Rightarrow> string + transaction"
  validateMultisigSignature ::
    "network \<Rightarrow> multisig_input list \<Rightarrow> tx_output list \<Rightarrow> nat \<Rightarrow> string \<Rightarrow> string + string option"
  signatureNoSighashType :: "string \<Rightarrow> string"
  signatureNoSighashTypeOfObject :: "string \<Rightarrow> string + bool \<times> string"
  scriptToHex :: "payment \<Rightarrow> string"
  fromASM :: "string \<Rightarrow> string + buffer"
  p2ms :: "network \<Rightarrow> buffer \<Rightarrow> buffer \<Rightarrow> string + payment"
  generateMultisigFromRaw :: "address_type \<Rightarrow> payment \<Rightarrow> string + payment"

subsection \<open>The unsigned transaction\<close>

fun addInputs :: "('tb, 'p) tx_libs \<Rightarrow> multisig_input list \<Rightarrow> 'tb \<Rightarrow> string + 'tb" where
  "addInputs c [] tb = Inr tb"
| "addInputs c (input # rest) tb =
     (case addInput c tb (input_txid input) (input_index input) of
        Inl e \<Rightarrow> Inl e
      | Inr tb' \<Rightarrow> addInputs c rest tb')"

fun addOutputs :: "('tb, 'p) tx_libs \<Rightarrow> tx_output list \<Rightarrow> 'tb \<Rightarrow> string + 'tb" where
  "addOutputs c [] tb = Inr tb"
| "addOutputs c (output # rest) tb =
     (case addOutput c tb (output_address output) (output_amountSats output) of
        Inl e \<Rightarrow> Inl e
      | Inr tb' \<Rightarrow> addOutputs c rest tb')"

definition unsignedMultisigTransaction ::
  "('tb, 'p) tx_libs \<Rightarrow> network \<Rightarrow> multisig_input list \<Rightarrow> tx_output list \<Rightarrow> string + transaction" where
  "unsignedMultisigTransaction c net inputs outputs =
     (let err = validateMultisigInputs c inputs in
      if err \<noteq> '''' then Inl err
      else
        (let err = validateOutputs c net outputs in
         if err \<noteq> '''' then Inl err
         else
           (let transactionBuilder =
                  setNetwork c (setVersion c (newTransactionBuilder c) 1) (tx_networkData c net)
            in case addInputs c inputs transactionBuilder of
                 Inl e \<Rightarrow> Inl e
               | Inr tb \<Rightarrow>
                   (case addOutputs c outputs tb of
                      Inl e \<Rightarrow> Inl e
                    | Inr tb' \<Rightarrow> buildIncomplete c tb'))))"

subsection \<open>Unlocking data\<close>

text \<open>
  The sorted signatures are entries of the dictionary: strings, or inherited properties.
  \<open>strippedSignature\<close> is \<open>signatureNoSighashType(signature)\<close> as the text that the
  template literal and the concatenation with \<open>'01'\<close> make of it; \<open>mapThrowing\<close> is
  \<open>Array.prototype.map\<close> with a callback that may throw.
\<close>

definition strippedSignature :: "('tb, 'p) tx_libs \<Rightarrow> property \<Rightarrow> string + string" where
  "strippedSignature c signature =
     (case signature of
        Own s \<Rightarrow> Inr (signatureNoSighashType c s)
      | Inherited k \<Rightarrow>
          (case signatureNoSighashTypeOfObject c k of
             Inl e \<Rightarrow> Inl e
           | Inr (isTruthy, printed) \<Rightarrow> Inr printed))"

fun mapThrowing :: "('a \<Rightarrow> string + 'b) \<Rightarrow> 'a list \<Rightarrow> string + 'b list" where
  "mapThrowing f [] = Inr []"
| "mapThrowing f (x # xs) =
     (case f x of
        Inl e \<Rightarrow> Inl e
      | Inr y \<Rightarrow>
          (case mapThrowing f xs of
             Inl e \<Rightarrow> Inl e
           | Inr ys \<Rightarrow> Inr (y # ys)))"

definition multisigWitnessField ::
  "('tb, 'p) tx_libs \<Rightarrow> multisig \<Rightarrow> property list \<Rightarrow> string + buffer list" where
  "multisigWitnessField c m sortedSignatures =
     (case mapThrowing (strippedSignature c) sortedSignatures of
        Inl e \<Rightarrow> Inl e
      | Inr stripped \<Rightarrow>
          (let witness = [''''] @ map (\<lambda>s. s @ ''01'') stripped;
               witnessScript = multisigWitnessScript m;
               witness = witness @ [scriptToHex c witnessScript]
           in Inr (map buffer_from_hex witness)))"

text \<open>\<open>Buffer.from(b, 'hex')\<close> of a buffer \<open>b\<close> is a copy of \<open>b\<close>.\<close>

definition multisigScriptSig ::
  "('tb, 'p) tx_libs \<Rightarrow> multisig \<Rightarrow> property list \<Rightarrow> string + payment" where
  "multisigScriptSig c m signersInputSignatures =
     (case mapThrowing (strippedSignature c) signersInputSignatures of
        Inl e \<Rightarrow> Inl e
      | Inr stripped \<Rightarrow>
          (let signatureOps = join '' '' (map (\<lambda>signature. signature @ ''01'') stripped);
               inputScript = ''OP_0 '' @ signatureOps
           in case fromASM c inputScript of
                Inl e \<Rightarrow> Inl e
              | Inr inputScriptBuffer \<Rightarrow>
                  (case p2ms c (multisig_network m) (payment_output (multisigRedeemScript m))
                          inputScriptBuffer of
                     Inl e \<Rightarrow> Inl e
                   | Inr rawMultisig \<Rightarrow>
                       generateMultisigFromRaw c (multisigAddressType m) rawMultisig)))"

text \<open>
  Writing \<open>ins[i].script\<close> and \<open>setWitness(i, w)\<close>: with no input at \<open>i\<close> the access
  throws a \<open>TypeError\<close>.
\<close>

definition setScript :: "transaction \<Rightarrow> nat \<Rightarrow> buffer \<Rightarrow> string + transaction" where
  "setScript tx i s =
     (if i < length (ins tx) then Inr (tx\<lparr>ins := (ins tx)[i := (ins tx ! i)\<lparr>in_script := s\<rparr>]\<rparr>)
      else Inl ''TypeError: Cannot set property 'script' of undefined'')"

definition setWitness :: "transaction \<Rightarrow> nat \<Rightarrow> buffer list \<Rightarrow> string + transaction" where
  "setWitness tx i w =
     (if i < length (ins tx) then Inr (tx\<lparr>ins := (ins tx)[i := (ins tx ! i)\<lparr>in_witness := w\<rparr>]\<rparr>)
      else Inl ''TypeError: Cannot set property 'witness' of undefined'')"

subsection \<open>The signed transaction\<close>

text \<open>The \<open>forEach\<close> over the rows: the first row shorter than the inputs throws.\<close>

fun checkRows :: "nat \<Rightarrow> nat \<Rightarrow> signature_row list \<Rightarrow> string option" where
  "checkRows n transactionSignatureIndex [] = None"
| "checkRows n transactionSignatureIndex (transactionSignature # rest) =
     (if length transactionSignature < n
      then Some (''Insufficient input signatures for transaction signature ''
             @ string_of_nat (transactionSignatureIndex + 1) @ '': require '' @ string_of_nat n
             @ '', received '' @ string_of_nat (length transactionSignature) @ ''.'')
      else checkRows n (transactionSignatureIndex + 1) rest)"

text \<open>The signatures of one input: its column of the matrix without the falsy entries.\<close>

definition inputSignatures :: "signature_row list \<Rightarrow> nat \<Rightarrow> string list" where
  "inputSignatures transactionSignatures inputIndex =
     concat (map (\<lambda>x. case x of None \<Rightarrow> [] | Some s \<Rightarrow> [s])
       (filter truthy (map (\<lambda>transactionSignature. at_index transactionSignature inputIndex)
          transactionSignatures)))"

text \<open>
  The \<open>forEach\<close> that fills \<open>inputSignaturesByPublicKey\<close>, an object used as a dictionary
  from public key to signature. \<open>resolve\<close> is \<open>validateMultisigSignature\<close> at the network,
  inputs, outputs and input index of the call. The object starts as \<open>{}\<close>, with no
  property of its own: \<open>Map.empty\<close> in \<open>signInput\<close> below. A key is written only when
  reading it is falsy, so never at one of the inherited names.
\<close>

fun signaturesByPublicKey ::
  "(string \<Rightarrow> string + string option) \<Rightarrow> nat \<Rightarrow> string list \<Rightarrow> (string \<rightharpoonup> string)
     \<Rightarrow> string + (string \<rightharpoonup> string)" where
  "signaturesByPublicKey resolve inputIndex [] byKey = Inr byKey"
| "signaturesByPublicKey resolve inputIndex (inputSignature # rest) byKey =
     (case resolve inputSignature of
        Inl e \<Rightarrow>
          Inl (''Invalid signature for input '' @ string_of_nat (inputIndex + 1) @ '': ''
                 @ inputSignature @ '' ('' @ e @ '')'')
      | Inr publicKey \<Rightarrow>
          (case publicKey of
             None \<Rightarrow>
               Inl (''Invalid signature for input '' @ string_of_nat (inputIndex + 1) @ '': ''
                      @ inputSignature)
           | Some pk \<Rightarrow>
               if \<not> truthy publicKey
               then Inl (''Invalid signature for input '' @ string_of_nat (inputIndex + 1) @ '': ''
                           @ inputSignature)
               else if property_truthy (get_property byKey pk)
               then Inl (''Duplicate signature for input '' @ string_of_nat (inputIndex + 1)
                           @ '': '' @ inputSignature)
               else signaturesByPublicKey resolve inputIndex rest (byKey(pk \<mapsto> inputSignature))))"

text \<open>
  The projection through the ordered public keys: the entry of each key, kept when it
  is truthy and so is the signature without its sighash type. \<open>keepSignature\<close> is the
  callback of the filter on an entry that is not \<open>undefined\<close>; the map over the keys and
  the filter are one recursion here, the lookups having no effect.
\<close>

definition keepSignature :: "('tb, 'p) tx_libs \<Rightarrow> property \<Rightarrow> string + bool" where
  "keepSignature c signature =
     (case signature of
        Own s \<Rightarrow> Inr (s \<noteq> '''' \<and> signatureNoSighashType c s \<noteq> '''')
      | Inherited k \<Rightarrow>
          (case signatureNoSighashTypeOfObject c k of
             Inl e \<Rightarrow> Inl e
           | Inr (isTruthy, printed) \<Rightarrow> Inr isTruthy))"

fun sortedSignatures ::
  "('tb, 'p) tx_libs \<Rightarrow> string list \<Rightarrow> (string \<rightharpoonup> string) \<Rightarrow> string + property list" where
  "sortedSignatures c [] byKey = Inr []"
| "sortedSignatures c (publicKey # rest) byKey =
     (case get_property byKey publicKey of
        None \<Rightarrow> sortedSignatures c rest byKey
      | Some signature \<Rightarrow>
          (case keepSignature c signature of
             Inl e \<Rightarrow> Inl e
           | Inr keep \<Rightarrow>
               (case sortedSignatures c rest byKey of
                  Inl e \<Rightarrow> Inl e
                | Inr others \<Rightarrow> Inr (if keep then signature # others else others))))"

text \<open>
  The body of the loop over the inputs, for the input at \<open>inputIndex\<close>, in two parts:
  the branch on the address type that writes the unlocking data, and in front of it the
  collection and the merge of the signatures.
\<close>

definition setUnlockingData ::
  "('tb, 'p) tx_libs \<Rightarrow> multisig \<Rightarrow> property list \<Rightarrow> nat \<Rightarrow> transaction \<Rightarrow> string + transaction" where
  "setUnlockingData c m sigs inputIndex signedTransaction =
     (if multisigAddressType m = P2WSH
      then
        (case multisigWitnessField c m sigs of
           Inl e \<Rightarrow> Inl e
         | Inr witness \<Rightarrow> setWitness signedTransaction inputIndex witness)
      else if multisigAddressType m = P2SH_P2WSH
      then
        (case multisigWitnessField c m sigs of
           Inl e \<Rightarrow> Inl e
         | Inr witness \<Rightarrow>
             (case setWitness signedTransaction inputIndex witness of
                Inl e \<Rightarrow> Inl e
              | Inr tx \<Rightarrow>
                  (let scriptSig = multisigRedeemScript m
                   in setScript tx inputIndex
                        (word_of_nat (length (payment_output scriptSig)) # payment_output scriptSig))))
      else
        (case multisigScriptSig c m sigs of
           Inl e \<Rightarrow> Inl e
         | Inr scriptSig \<Rightarrow> setScript signedTransaction inputIndex (payment_input scriptSig)))"

definition signInput ::
  "('tb, 'p) tx_libs \<Rightarrow> network \<Rightarrow> multisig_input list \<Rightarrow> tx_output list \<Rightarrow> signature_row list
     \<Rightarrow> nat \<Rightarrow> transaction \<Rightarrow> string + transaction" where
  "signInput c net inputs outputs transactionSignatures inputIndex signedTransaction =
     (let input = inputs ! inputIndex;
          sigs = inputSignatures transactionSignatures inputIndex;
          requiredSignatures = multisigRequiredSigners (input_multisig input)
      in if length sigs < requiredSignatures
         then Inl (''Insufficient signatures for input  '' @ string_of_nat (inputIndex + 1)
                     @ '': require '' @ string_of_nat requiredSignatures
                     @ '',  received '' @ string_of_nat (length sigs) @ ''.'')
         else
           (case signaturesByPublicKey (validateMultisigSignature c net inputs outputs inputIndex)
                   inputIndex sigs Map.empty of
              Inl e \<Rightarrow> Inl e
            | Inr inputSignaturesByPublicKey \<Rightarrow>
                (let publicKeys = multisigPublicKeys (input_multisig input)
                 in case sortedSignatures c publicKeys inputSignaturesByPublicKey of
                      Inl e \<Rightarrow> Inl e
                    | Inr ordered \<Rightarrow>
                        setUnlockingData c (input_multisig input) ordered inputIndex
                          signedTransaction)))"

fun signInputs ::
  "('tb, 'p) tx_libs \<Rightarrow> network \<Rightarrow> multisig_input list \<Rightarrow> tx_output list \<Rightarrow> signature_row list
     \<Rightarrow> nat list \<Rightarrow> transaction \<Rightarrow> string + transaction" where
  "signInputs c net inputs outputs transactionSignatures [] signedTransaction = Inr signedTransaction"
| "signInputs c net inputs outputs transactionSignatures (inputIndex # rest) signedTransaction =
     (case signInput c net inputs outputs transactionSignatures inputIndex signedTransaction of
        Inl e \<Rightarrow> Inl e
      | Inr tx \<Rightarrow> signInputs c net inputs outputs transactionSignatures rest tx)"

definition signedMultisigTransaction ::
  "('tb, 'p) tx_libs \<Rightarrow> network \<Rightarrow> multisig_input list \<Rightarrow> tx_output list \<Rightarrow> signature_row list
     \<Rightarrow> string + transaction" where
  "signedMultisigTransaction c net inputs outputs transactionSignatures =
     (case unsignedMultisigTransaction c net inputs outputs of
        Inl e \<Rightarrow> Inl e
      | Inr unsignedTransaction \<Rightarrow>
          if transactionSignatures = []
          then Inl ''At least one transaction signature is required.''
          else
            (case checkRows (length inputs) 0 transactionSignatures of
               Some e \<Rightarrow> Inl e
             | None \<Rightarrow>
                 signInputs c net inputs outputs transactionSignatures [0..<length inputs]
                   unsignedTransaction))"

subsection \<open>Notions the properties of module transactions are stated with\<close>

text \<open>
  Modelled from the spec: a public key is a hex string. Such a string is none of the
  names of \<open>Object.prototype\<close>.
\<close>

definition public_key :: "string \<Rightarrow> bool" where
  "public_key k = (k \<noteq> '''' \<and> (\<forall>ch\<in>set k. hex_digit ch \<noteq> None))"

text \<open>
  Signatures are valid and distinct when each resolves to a public key and no two
  resolve to the same.
\<close>

definition valid_signatures :: "(string \<Rightarrow> string + string option) \<Rightarrow> string list \<Rightarrow> bool" where
  "valid_signatures resolve sigs =
     ((\<forall>s\<in>set sigs. case resolve s of Inr (Some k) \<Rightarrow> public_key k | _ \<Rightarrow> False)
      \<and> distinct (map resolve sigs))"

text \<open>
  The signatures in the order of the public keys: for each public key in turn, the
  signatures that resolve to it and are not empty once the sighash type is stripped.
\<close>

definition key_ordered ::
  "(string \<Rightarrow> string + string option) \<Rightarrow> (string \<Rightarrow> string) \<Rightarrow> string list \<Rightarrow> string list \<Rightarrow> string list" where
  "key_ordered resolve strip publicKeys sigs =
     concat (map (\<lambda>pk. filter (\<lambda>s. resolve s = Inr (Some pk) \<and> strip s \<noteq> '''') sigs) publicKeys)"

text \<open>
  The input script of a legacy input in text form: \<open>OP_0\<close>, then one push for each
  signature in turn, the signature without its sighash type followed by \<open>01\<close>. And the
  payment that the script collaborators make of an input script in text form for a
  descriptor: \<open>fromASM\<close>, then \<open>p2ms\<close> with the redeem script, then
  \<open>generateMultisigFromRaw\<close>.
\<close>

definition signature_pushes :: "(string \<Rightarrow> string) \<Rightarrow> string list \<Rightarrow> string" where
  "signature_pushes strip sigs = ''OP_0 '' @ join '' '' (map (\<lambda>s. strip s @ ''01'') sigs)"

definition script_of_asm :: "('tb, 'p) tx_libs \<Rightarrow> multisig \<Rightarrow> string \<Rightarrow> string + payment" where
  "script_of_asm c m asm =
     (case fromASM c asm of
        Inl e \<Rightarrow> Inl e
      | Inr script \<Rightarrow>
          (case p2ms c (multisig_network m) (payment_output (multisigRedeemScript m)) script of
             Inl e \<Rightarrow> Inl e
           | Inr raw \<Rightarrow> generateMultisigFromRaw c (multisigAddressType m) raw))"

definition legacy :: "multisig \<Rightarrow> bool" where
  "legacy m = (multisigAddressType m \<noteq> P2WSH \<and> multisigAddressType m \<noteq> P2SH_P2WSH)"

text \<open>
  An input is ready when the public keys of its descriptor are public keys, its column
  of the matrix holds at least the required number of signatures, they are valid and
  distinct, and, for a legacy input, the script collaborators accept the input script
  with the pushes of the signatures in the order of the public keys.
\<close>

definition input_ready ::
  "('tb, 'p) tx_libs \<Rightarrow> network \<Rightarrow> multisig_input list \<Rightarrow> tx_output list \<Rightarrow> signature_row list
     \<Rightarrow> nat \<Rightarrow> bool" where
  "input_ready c net inputs outputs rows i =
     (let m = input_multisig (inputs ! i);
          sigs = inputSignatures rows i;
          resolve = validateMultisigSignature c net inputs outputs i
      in (\<forall>k\<in>set (multisigPublicKeys m). public_key k)
         \<and> multisigRequiredSigners m \<le> length sigs
         \<and> valid_signatures resolve sigs
         \<and> (legacy m \<longrightarrow>
              (case script_of_asm c m
                      (signature_pushes (signatureNoSighashType c)
                         (key_ordered resolve (signatureNoSighashType c) (multisigPublicKeys m) sigs)) of
                 Inl e \<Rightarrow> False
               | Inr p \<Rightarrow> True)))"

subsection \<open>Sample collaborators\<close>

text \<open>
  A small instance of the collaborators: validators that ask for one input and one output,
  a builder that collects inputs and outputs in a transaction, signatures that resolve by
  a table (two of them to the same key), and script functions that keep the text of the
  input script, so that the order of the pushes can be read off the result.
\<close>

definition sample_resolve :: "string \<Rightarrow> string + string option" where
  "sample_resolve s =
     (case map_of [(''3044aa'', ''02aa''), (''3044bb'', ''02bb''), (''3044cc'', ''03cc''),
                   (''3045aa'', ''02aa'')] s of
        None \<Rightarrow> Inr None
      | Some k \<Rightarrow> Inr (Some k))"

definition sample_tx_libs :: "(transaction, network) tx_libs" where
  "sample_tx_libs =
     \<lparr>validateMultisigInputs = (\<lambda>inputs. if inputs = [] then ''At least one input is required.'' else ''''),
      validateOutputs = (\<lambda>net outputs. if outputs = [] then ''At least one output is required.'' else ''''),
      tx_networkData = (\<lambda>net. net),
      newTransactionBuilder = \<lparr>tx_version = 2, ins = [], outs = []\<rparr>,
      setVersion = (\<lambda>tb v. tb\<lparr>tx_version := v\<rparr>),
      setNetwork = (\<lambda>tb p. tb),
      addInput = (\<lambda>tb txid n. Inr (tb\<lparr>ins := ins tb
                    @ [\<lparr>in_hash = txid, in_index = n, in_script = [], in_witness = []\<rparr>]\<rparr>)),
      addOutput = (\<lambda>tb address amount. Inr (tb\<lparr>outs := outs tb @ [(map of_char address, amount)]\<rparr>)),
      buildIncomplete = (\<lambda>tb. Inr tb),
      validateMultisigSignature = (\<lambda>net inputs outputs i s. sample_resolve s),
      signatureNoSighashType = (\<lambda>s. s),
      signatureNoSighashTypeOfObject = (\<lambda>k. Inl ''TypeError: signature.slice is not a function''),
      scriptToHex = (\<lambda>p. buffer_to_hex (payment_output p)),
      fromASM = (\<lambda>asm. Inr (map of_char asm)),
      p2ms = (\<lambda>net out inp. Inr \<lparr>payment_input = inp, payment_output = out\<rparr>),
      generateMultisigFromRaw = (\<lambda>t p. Inr \<lparr>payment_input = payment_input p @ payment_output p,
                                              payment_output = []\<rparr>)\<rparr>"

definition sample_multisig :: multisig where
  "sample_multisig =
     \<lparr>multisigRequiredSigners = 2, multisigPublicKeys = [''02aa'', ''02bb'', ''03cc''],
      multisigAddressType = P2SH,
      multisigRedeemScript = \<lparr>payment_input = [], payment_output = [0x52, 0x53, 0xae]\<rparr>,
      multisigWitnessScript = \<lparr>payment_input = [], payment_output = [0x52, 0x53, 0xae]\<rparr>,
      multisig_network = TESTNET\<rparr>"

definition sample_input :: "nat \<Rightarrow> multisig_input" where
  "sample_input n = \<lparr>input_txid = ''ae'', input_index = n, input_multisig = sample_multisig\<rparr>"

definition sample_outputs :: "tx_output list" where
  "sample_outputs = [\<lparr>output_address = ''2N'', output_amountSats = 90000\<rparr>]"

section \<open>Properties of module keys\<close>

subsection \<open>Prefixes and the trim\<close>

lemma indexOf_ge: "- 1 \<le> indexOf xs x"
  by (induction xs) (auto simp: Let_def)

lemma indexOf_absent_iff: "indexOf xs x = - 1 \<longleftrightarrow> x \<notin> set xs"
proof (induction xs)
  case Nil
  show ?case by simp
next
  case (Cons y ys)
  have "- 1 \<le> indexOf ys x" by (rule indexOf_ge)
  with Cons show ?case by (auto simp: Let_def)
qed

lemma validatePrefix_None_iff: "validatePrefix p t = None \<longleftrightarrow> p \<in> set known_prefixes"
proof -
  have "NOT (indexOf (map fst extendedPublicKeyVersions) p) = 0
          \<longleftrightarrow> indexOf (map fst extendedPublicKeyVersions) p = - 1"
    by (simp add: not_int_def)
  then show ?thesis
    by (simp add: validatePrefix_def known_prefixes_def indexOf_absent_iff)
qed

lemma validatePrefix_Some:
  "validatePrefix p t = Some e \<Longrightarrow> e = ''Invalid '' @ t @ '' version for extended public key conversion''"
  by (simp add: validatePrefix_def split: if_splits)

lemma convert_invariant: "conversion_invariant key (extendedPublicKeyConvert L key t)"
  by (auto simp: conversion_invariant_def has_message_def extendedPublicKeyConvert_def Let_def
      split: option.splits sum.splits)

lemma convert_changed_no_error:
  "extendedPublicKey (extendedPublicKeyConvert L key t) \<noteq> key \<Longrightarrow> error (extendedPublicKeyConvert L key t) = ''''"
  using convert_invariant [of key L t] by (auto simp: conversion_invariant_def)

lemma convertAndValidate_invariant:
  "conversion_invariant key (convertAndValidateExtendedPublicKey L key net)"
  using convert_invariant [of key L "if net = TESTNET then ''tpub'' else ''xpub''"]
  by (auto simp: convertAndValidateExtendedPublicKey_def Let_def conversion_invariant_def has_message_def)

lemma dropWhile_keep: "xs \<noteq> [] \<Longrightarrow> \<not> P (hd xs) \<Longrightarrow> dropWhile P xs = xs"
  by (cases xs) simp_all

lemma trim_ends:
  assumes "s \<noteq> []" and "\<not> js_whitespace (hd s)" and "\<not> js_whitespace (last s)"
  shows "trim s = s"
proof -
  have front: "dropWhile js_whitespace s = s"
    using assms by (simp add: dropWhile_keep)
  have "hd (rev s) = last s"
    using assms by (simp add: hd_rev)
  then have rear: "dropWhile js_whitespace (rev s) = rev s"
    using assms by (simp add: dropWhile_keep)
  show ?thesis
    by (simp add: trim_def front rear)
qed

lemma trim_no_whitespace:
  assumes "\<forall>c\<in>set s. \<not> js_whitespace c"
  shows "trim s = s"
proof (cases "s = []")
  case True
  then show ?thesis by (simp add: trim_def)
next
  case False
  then have "hd s \<in> set s" and "last s \<in> set s" by simp_all
  with assms False show ?thesis by (simp add: trim_ends)
qed

lemma known_prefixes_simp:
  "known_prefixes =
     [''xpub'', ''ypub'', ''zpub'', ''Ypub'', ''Zpub'', ''tpub'', ''upub'', ''vpub'', ''Upub'', ''Vpub'']"
  by (simp add: known_prefixes_def extendedPublicKeyVersions_def)

lemma extendedPublicKeyConvert_known:
  assumes "targetPrefix \<in> set known_prefixes" and "take 4 key \<in> set known_prefixes"
  shows "extendedPublicKeyConvert L key targetPrefix =
     (case bs58check_decode L (trim key) of
        Inl err \<Rightarrow>
          \<lparr>extendedPublicKey = key, message = None,
           error = ''Unable to convert extended public key: '' @ err\<rparr>
      | Inr decoded \<Rightarrow>
          \<lparr>extendedPublicKey = bs58check_encode L (version_bytes targetPrefix @ drop 4 decoded),
           message = Some (''Your extended public key has been converted from ''
             @ take 4 key @ '' to '' @ targetPrefix),
           error = ''''\<rparr>)"
proof -
  have t: "validatePrefix targetPrefix ''target'' = None"
    and s: "validatePrefix (take 4 key) ''source'' = None"
    using assms by (simp_all add: validatePrefix_None_iff)
  from assms(1) obtain v where v: "map_of extendedPublicKeyVersions targetPrefix = Some v"
    by (cases "map_of extendedPublicKeyVersions targetPrefix")
       (auto simp: known_prefixes_def map_of_eq_None_iff)
  then have "version_bytes targetPrefix = buffer_from_hex v"
    by (simp add: version_bytes_def)
  with t s v show ?thesis
    by (simp add: extendedPublicKeyConvert_def Let_def split: sum.splits)
qed

lemma extendedPublicKeyConvert_unknown_source:
  assumes "targetPrefix \<in> set known_prefixes" and "take 4 key \<notin> set known_prefixes"
  shows "extendedPublicKeyConvert L key targetPrefix =
     \<lparr>extendedPublicKey = key, message = None,
      error = ''Invalid source version for extended public key conversion''\<rparr>"
proof -
  have t: "validatePrefix targetPrefix ''target'' = None"
    using assms by (simp add: validatePrefix_None_iff)
  from assms(2) obtain e where e: "validatePrefix (take 4 key) ''source'' = Some e"
    by (cases "validatePrefix (take 4 key) ''source''") (auto simp: validatePrefix_None_iff)
  from validatePrefix_Some [OF e] t e show ?thesis
    by (simp add: extendedPublicKeyConvert_def)
qed

subsection \<open>Base58 texts and version bytes\<close>

lemma foldl_bytes: "foldl (\<lambda>n b. 256 * n + unat b) a bs = a * 256 ^ length bs + foldl (\<lambda>n b. 256 * n + unat b) 0 bs"
proof (induction bs arbitrary: a)
  case Nil
  show ?case by simp
next
  case (Cons b bs)
  have "foldl (\<lambda>n b. 256 * n + unat b) (256 * a + unat b) bs
          = (256 * a + unat b) * 256 ^ length bs + foldl (\<lambda>n b. 256 * n + unat b) 0 bs"
    by (rule Cons.IH)
  moreover have "foldl (\<lambda>n b. 256 * n + unat b) (unat b) bs
          = unat b * 256 ^ length bs + foldl (\<lambda>n b. 256 * n + unat b) 0 bs"
    by (rule Cons.IH)
  ultimately show ?case
    by (simp add: algebra_simps)
qed

lemma buffer_to_nat_append:
  "buffer_to_nat (xs @ ys) = buffer_to_nat xs * 256 ^ length ys + buffer_to_nat ys"
  by (simp add: buffer_to_nat_def foldl_bytes [of "foldl (\<lambda>n b. 256 * n + unat b) 0 xs"])

lemma buffer_to_nat_less: "buffer_to_nat bs < 256 ^ length bs"
proof (induction bs rule: rev_induct)
  case Nil
  show ?case by (simp add: buffer_to_nat_def)
next
  case (snoc b bs)
  have "unat b < 256" using unsigned_less [of b, where 'a = nat] by simp
  with snoc show ?case
    by (simp add: buffer_to_nat_append) (simp add: buffer_to_nat_def)
qed

lemma length_base58_digits_div: "length (base58_digits (n div 58)) \<le> length (base58_digits n)"
  by (cases "n = 0") (simp_all add: base58_digits.simps [of n])

lemma base58_digits_leading:
  "0 < n div 58 ^ k \<Longrightarrow>
   take (length (base58_digits (n div 58 ^ k))) (base58_digits n) = base58_digits (n div 58 ^ k)"
proof (induction k arbitrary: n)
  case 0
  show ?case by simp
next
  case (Suc k)
  have shift: "n div 58 ^ Suc k = (n div 58) div 58 ^ k"
    by (simp add: div_mult2_eq)
  with Suc.prems have pos: "0 < (n div 58) div 58 ^ k" by simp
  then have "n \<noteq> 0" by (cases "n = 0") simp_all
  then have unfold: "base58_digits n = base58_digits (n div 58) @ [n mod 58]"
    by (simp add: base58_digits.simps [of n])
  from Suc.IH [OF pos]
  have ih: "take (length (base58_digits ((n div 58) div 58 ^ k))) (base58_digits (n div 58))
              = base58_digits ((n div 58) div 58 ^ k)" .
  have "length (take (length (base58_digits ((n div 58) div 58 ^ k))) (base58_digits (n div 58)))
          = length (base58_digits ((n div 58) div 58 ^ k))"
    by (simp only: ih)
  then have "length (base58_digits ((n div 58) div 58 ^ k)) \<le> length (base58_digits (n div 58))"
    by simp
  with ih show ?case
    unfolding shift unfold by simp
qed


lemma base58_text_prefix:
  assumes rest: "length rest = 78"
    and first: "unat a \<noteq> 0"
    and lo: "m * 58 ^ 107 \<le> buffer_to_nat [a, b, c, d] * 256 ^ 78"
    and hi: "(buffer_to_nat [a, b, c, d] + 1) * 256 ^ 78 \<le> (m + 1) * 58 ^ 107"
    and digits: "base58_digits m = [d1, d2, d3, d4]"
  shows "take 4 (base58_text ([a, b, c, d] @ rest)) = map (\<lambda>d. base58_alphabet ! d) [d1, d2, d3, d4]"
proof -
  define n where "n = buffer_to_nat ([a, b, c, d] @ rest)"
  define P :: nat where "P = 256 ^ 78"
  define Q :: nat where "Q = 58 ^ 107"
  define v where "v = buffer_to_nat [a, b, c, d]"
  have n: "n = v * P + buffer_to_nat rest"
    unfolding n_def v_def P_def buffer_to_nat_append rest ..
  have r: "buffer_to_nat rest < P"
    using buffer_to_nat_less [of rest] by (simp only: rest P_def)
  have lo': "m * Q \<le> v * P" and hi': "v * P + P \<le> m * Q + Q"
    using lo hi by (simp_all only: P_def Q_def v_def add_mult_distrib mult_1)
  from n r lo' hi' have "Q * m \<le> n" and "n < Q * Suc m"
    by (simp_all add: mult.commute)
  then have quot: "n div 58 ^ 107 = m"
    unfolding Q_def by (rule div_nat_eqI)
  have "m \<noteq> 0"
  proof
    assume "m = 0"
    with digits show False by (simp add: base58_digits.simps [of 0])
  qed
  with quot have "0 < n div 58 ^ 107" by (simp only: neq0_conv)
  note base58_digits_leading [OF this, unfolded quot digits]
  then have lead: "take 4 (base58_digits n) = [d1, d2, d3, d4]"
    by (simp add: eval_nat_numeral)
  have "a \<noteq> 0"
    using first by auto
  then have zeros: "takeWhile (\<lambda>b. b = 0) ([a, b, c, d] @ rest) = []"
    by simp
  show ?thesis
    unfolding base58_text_def zeros n_def [symmetric]
    by (simp add: take_map lead)
qed

lemma base58_prefix_xpub:
  assumes "length rest = 78"
  shows "take 4 (base58_text (version_bytes ''xpub'' @ rest)) = ''xpub''"
proof -
  have v: "version_bytes ''xpub'' = [4, 136, 178, 30]"
    by (simp add: version_bytes_def extendedPublicKeyVersions_def hex_digit_def)
  have "take 4 (base58_text ([4, 136, 178, 30] @ rest))
          = map (\<lambda>d. base58_alphabet ! d) [55, 47, 52, 34]"
    by (rule base58_text_prefix [where m = 10892318, OF assms])
       (simp_all add: buffer_to_nat_def base58_digits.simps)
  then show ?thesis
    by (simp add: v base58_alphabet_def)
qed

lemma base58_prefix_ypub:
  assumes "length rest = 78"
  shows "take 4 (base58_text (version_bytes ''ypub'' @ rest)) = ''ypub''"
proof -
  have v: "version_bytes ''ypub'' = [4, 157, 124, 178]"
    by (simp add: version_bytes_def extendedPublicKeyVersions_def hex_digit_def)
  have "take 4 (base58_text ([4, 157, 124, 178] @ rest))
          = map (\<lambda>d. base58_alphabet ! d) [56, 47, 52, 34]"
    by (rule base58_text_prefix [where m = 11087430, OF assms])
       (simp_all add: buffer_to_nat_def base58_digits.simps)
  then show ?thesis
    by (simp add: v base58_alphabet_def)
qed

lemma base58_prefix_zpub:
  assumes "length rest = 78"
  shows "take 4 (base58_text (version_bytes ''zpub'' @ rest)) = ''zprv''"
proof -
  have v: "version_bytes ''zpub'' = [4, 178, 67, 12]"
    by (simp add: version_bytes_def extendedPublicKeyVersions_def hex_digit_def)
  have "take 4 (base58_text ([4, 178, 67, 12] @ rest))
          = map (\<lambda>d. base58_alphabet ! d) [57, 47, 49, 53]"
    by (rule base58_text_prefix [where m = 11282387, OF assms])
       (simp_all add: buffer_to_nat_def base58_digits.simps)
  then show ?thesis
    by (simp add: v base58_alphabet_def)
qed

lemma base58_prefix_Ypub:
  assumes "length rest = 78"
  shows "take 4 (base58_text (version_bytes ''Ypub'' @ rest)) = ''Ypub''"
proof -
  have v: "version_bytes ''Ypub'' = [2, 149, 180, 63]"
    by (simp add: version_bytes_def extendedPublicKeyVersions_def hex_digit_def)
  have "take 4 (base58_text ([2, 149, 180, 63] @ rest))
          = map (\<lambda>d. base58_alphabet ! d) [31, 47, 52, 34]"
    by (rule base58_text_prefix [where m = 6209630, OF assms])
       (simp_all add: buffer_to_nat_def base58_digits.simps)
  then show ?thesis
    by (simp add: v base58_alphabet_def)
qed

lemma base58_prefix_Zpub:
  assumes "length rest = 78"
  shows "take 4 (base58_text (version_bytes ''Zpub'' @ rest)) = ''Zpub''"
proof -
  have v: "version_bytes ''Zpub'' = [2, 170, 126, 211]"
    by (simp add: version_bytes_def extendedPublicKeyVersions_def hex_digit_def)
  have "take 4 (base58_text ([2, 170, 126, 211] @ rest))
          = map (\<lambda>d. base58_alphabet ! d) [32, 47, 52, 34]"
    by (rule base58_text_prefix [where m = 6404742, OF assms])
       (simp_all add: buffer_to_nat_def base58_digits.simps)
  then show ?thesis
    by (simp add: v base58_alphabet_def)
qed

lemma base58_prefix_tpub:
  assumes "length rest = 78"
  shows "take 4 (base58_text (version_bytes ''tpub'' @ rest)) = ''tpub''"
proof -
  have v: "version_bytes ''tpub'' = [4, 53, 135, 207]"
    by (simp add: version_bytes_def extendedPublicKeyVersions_def hex_digit_def)
  have "take 4 (base58_text ([4, 53, 135, 207] @ rest))
          = map (\<lambda>d. base58_alphabet ! d) [51, 47, 52, 34]"
    by (rule base58_text_prefix [where m = 10111870, OF assms])
       (simp_all add: buffer_to_nat_def base58_digits.simps)
  then show ?thesis
    by (simp add: v base58_alphabet_def)
qed

lemma base58_prefix_upub:
  assumes "length rest = 78"
  shows "take 4 (base58_text (version_bytes ''upub'' @ rest)) = ''upub''"
proof -
  have v: "version_bytes ''upub'' = [4, 74, 82, 98]"
    by (simp add: version_bytes_def extendedPublicKeyVersions_def hex_digit_def)
  have "take 4 (base58_text ([4, 74, 82, 98] @ rest))
          = map (\<lambda>d. base58_alphabet ! d) [52, 47, 52, 34]"
    by (rule base58_text_prefix [where m = 10306982, OF assms])
       (simp_all add: buffer_to_nat_def base58_digits.simps)
  then show ?thesis
    by (simp add: v base58_alphabet_def)
qed

lemma base58_prefix_vpub:
  assumes "length rest = 78"
  shows "take 4 (base58_text (version_bytes ''vpub'' @ rest)) = ''vpub''"
proof -
  have v: "version_bytes ''vpub'' = [4, 95, 28, 246]"
    by (simp add: version_bytes_def extendedPublicKeyVersions_def hex_digit_def)
  have "take 4 (base58_text ([4, 95, 28, 246] @ rest))
          = map (\<lambda>d. base58_alphabet ! d) [53, 47, 52, 34]"
    by (rule base58_text_prefix [where m = 10502094, OF assms])
       (simp_all add: buffer_to_nat_def base58_digits.simps)
  then show ?thesis
    by (simp add: v base58_alphabet_def)
qed

lemma base58_prefix_Upub:
  assumes "length rest = 78"
  shows "take 4 (base58_text (version_bytes ''Upub'' @ rest)) = ''Upub''"
proof -
  have v: "version_bytes ''Upub'' = [2, 66, 137, 239]"
    by (simp add: version_bytes_def extendedPublicKeyVersions_def hex_digit_def)
  have "take 4 (base58_text ([2, 66, 137, 239] @ rest))
          = map (\<lambda>d. base58_alphabet ! d) [27, 47, 52, 34]"
    by (rule base58_text_prefix [where m = 5429182, OF assms])
       (simp_all add: buffer_to_nat_def base58_digits.simps)
  then show ?thesis
    by (simp add: v base58_alphabet_def)
qed

lemma base58_prefix_Vpub:
  assumes "length rest = 78"
  shows "take 4 (base58_text (version_bytes ''Vpub'' @ rest)) = ''Vpub''"
proof -
  have v: "version_bytes ''Vpub'' = [2, 87, 84, 131]"
    by (simp add: version_bytes_def extendedPublicKeyVersions_def hex_digit_def)
  have "take 4 (base58_text ([2, 87, 84, 131] @ rest))
          = map (\<lambda>d. base58_alphabet ! d) [28, 47, 52, 34]"
    by (rule base58_text_prefix [where m = 5624294, OF assms])
       (simp_all add: buffer_to_nat_def base58_digits.simps)
  then show ?thesis
    by (simp add: v base58_alphabet_def)
qed

text \<open>
  With its own version bytes in front of 78 more bytes (74 of the key and 4 of the checksum),
  each prefix of the table begins the base58 text, except \<open>zpub\<close>: its version bytes
  give \<open>zprv\<close>.
\<close>

lemma base58_prefix_of_version:
  assumes "p \<in> set known_prefixes" and "length rest = 78"
  shows "take 4 (base58_text (version_bytes p @ rest)) = (if p = ''zpub'' then ''zprv'' else p)"
proof -
  from assms(1) have "p \<in> set [''xpub'', ''ypub'', ''zpub'', ''Ypub'', ''Zpub'', ''tpub'', ''upub'', ''vpub'', ''Upub'', ''Vpub'']"
    by (simp add: known_prefixes_def extendedPublicKeyVersions_def)
  then show ?thesis
    using base58_prefix_xpub [OF assms(2)] base58_prefix_ypub [OF assms(2)]
      base58_prefix_zpub [OF assms(2)] base58_prefix_Ypub [OF assms(2)]
      base58_prefix_Zpub [OF assms(2)] base58_prefix_tpub [OF assms(2)]
      base58_prefix_upub [OF assms(2)] base58_prefix_vpub [OF assms(2)]
      base58_prefix_Upub [OF assms(2)] base58_prefix_Vpub [OF assms(2)]
    by auto
qed

text \<open>A list of digits below 58 that does not start with 0 is the digits of the number it spells.\<close>

lemma base58_digits_step:
  assumes "d < 58" and "v \<noteq> 0 \<or> d \<noteq> 0"
  shows "base58_digits (58 * v + d) = base58_digits v @ [d]"
  using assms by (simp add: base58_digits.simps [of "58 * v + d"])

lemma base58_digits_of_digits:
  assumes "\<forall>d\<in>set ds. d < 58" and "ds = [] \<or> hd ds \<noteq> 0"
  shows "base58_digits (foldl (\<lambda>n d. 58 * n + d) 0 ds) = ds"
  using assms
proof (induction ds rule: rev_induct)
  case Nil
  show ?case by (simp add: base58_digits.simps [of 0])
next
  case (snoc d ds)
  define v where "v = foldl (\<lambda>n d. 58 * n + d) 0 ds"
  from snoc.prems(1) have d: "d < 58" by simp
  have spelt: "foldl (\<lambda>n d. 58 * n + d) 0 (ds @ [d]) = 58 * v + d"
    by (simp add: v_def)
  show ?case
  proof (cases "ds = []")
    case True
    with snoc.prems(2) have "d \<noteq> 0" by simp
    moreover from True have "v = 0" by (simp add: v_def)
    ultimately have "base58_digits (58 * v + d) = [d]"
      using base58_digits_step [of d 0] d by (simp add: base58_digits.simps [of 0])
    with True show ?thesis
      unfolding spelt by simp
  next
    case False
    with snoc.prems have "\<forall>d\<in>set ds. d < 58" and "ds = [] \<or> hd ds \<noteq> 0"
      by simp_all
    then have ih: "base58_digits v = ds"
      unfolding v_def by (rule snoc.IH)
    with False have "v \<noteq> 0"
      by (cases "v = 0") (simp_all add: base58_digits.simps [of 0])
    with d have "base58_digits (58 * v + d) = base58_digits v @ [d]"
      by (simp add: base58_digits_step)
    with ih show ?thesis
      unfolding spelt by simp
  qed
qed

lemma base58_text_digitsI:
  assumes "hd bs \<noteq> 0" and "bs \<noteq> []"
    and "\<forall>d\<in>set ds. d < 58" and "ds = [] \<or> hd ds \<noteq> 0"
    and "foldl (\<lambda>n d. 58 * n + d) 0 ds = buffer_to_nat bs"
  shows "base58_text bs = map (\<lambda>d. base58_alphabet ! d) ds"
proof -
  from assms(1,2) have "takeWhile (\<lambda>b. b = 0) bs = []"
    by (cases bs) simp_all
  with base58_digits_of_digits [OF assms(3,4)] assms(5) show ?thesis
    by (simp add: base58_text_def)
qed


subsection \<open>The sample keys\<close>

lemma version_bytes_samples:
  "version_bytes ''xpub'' = [0x04, 0x88, 0xb2, 0x1e]"
  "version_bytes ''tpub'' = [0x04, 0x35, 0x87, 0xcf]"
  "version_bytes ''ypub'' = [0x04, 0x9d, 0x7c, 0xb2]"
  "version_bytes ''zpub'' = [0x04, 0xb2, 0x43, 0x0c]"
  by (simp_all add: version_bytes_def extendedPublicKeyVersions_def hex_digit_def)

lemma sample_shapes:
  "length sample_xpub = 111" "take 4 sample_xpub = ''xpub''" "trim sample_xpub = sample_xpub"
  "length sample_tpub = 111" "take 4 sample_tpub = ''tpub''" "trim sample_tpub = sample_tpub"
  "length sample_zprv = 111" "take 4 sample_zprv = ''zprv''" "trim sample_zprv = sample_zprv"
  "length orphan_ypub = 111" "take 4 orphan_ypub = ''ypub''" "trim orphan_ypub = orphan_ypub"
  "length orphan_xpub = 111" "take 4 orphan_xpub = ''xpub''" "trim orphan_xpub = orphan_xpub"
  by (simp_all add: sample_xpub_def sample_tpub_def sample_zprv_def orphan_ypub_def orphan_xpub_def
      trim_ends js_whitespace_def)

lemma payload_heads:
  "take 5 sample_payload = [0x03, 0x49, 0xed, 0x9b, 0xb4]" "4 < length sample_payload"
  "take 5 orphan_payload = [0, 0, 0, 0, 1]" "orphan_payload ! 0 = 0" "4 < length orphan_payload"
  "sample_payload \<noteq> orphan_payload" "orphan_payload \<noteq> sample_payload" "sample_payload ! 0 = 3"
  by (simp_all add: sample_payload_def orphan_payload_def hex_digit_def)

lemma sample_decode_simps:
  "sample_decode sample_xpub = Inr (version_bytes ''xpub'' @ sample_payload)"
  "sample_decode sample_tpub = Inr (version_bytes ''tpub'' @ sample_payload)"
  "sample_decode sample_zprv = Inr (version_bytes ''zpub'' @ sample_payload)"
  "sample_decode orphan_ypub = Inr (version_bytes ''ypub'' @ orphan_payload)"
  "sample_decode orphan_xpub = Inr (version_bytes ''xpub'' @ orphan_payload)"
  by (simp_all add: sample_decode_def sample_keys_def sample_xpub_def sample_tpub_def
      sample_ypub_def sample_zprv_def orphan_xpub_def orphan_tpub_def orphan_ypub_def)

lemma sample_checksum_simps:
  "sample_checksum (0x04 # 0x88 # 0xb2 # 0x1e # sample_payload) = [0x28, 0x98, 0x4e, 0xe0]"
  "sample_checksum (0x04 # 0x35 # 0x87 # 0xcf # sample_payload) = [0x8c, 0xa2, 0x59, 0x98]"
  "sample_checksum (0x04 # 0xb2 # 0x43 # 0x0c # sample_payload) = [0x61, 0x2d, 0x96, 0xc5]"
  "sample_checksum (0x04 # 0x88 # 0xb2 # 0x1e # orphan_payload) = [0x25, 0xb4, 0x08, 0xbb]"
  by (simp_all add: sample_checksum_def sample_checksums_def version_bytes_samples payload_heads)

lemma base58_alphabet_nth:
  "base58_alphabet ! 0 = CHR ''1''"
  "base58_alphabet ! 1 = CHR ''2''"
  "base58_alphabet ! Suc 0 = CHR ''2''"
  "base58_alphabet ! 2 = CHR ''3''"
  "base58_alphabet ! 3 = CHR ''4''"
  "base58_alphabet ! 4 = CHR ''5''"
  "base58_alphabet ! 5 = CHR ''6''"
  "base58_alphabet ! 6 = CHR ''7''"
  "base58_alphabet ! 7 = CHR ''8''"
  "base58_alphabet ! 8 = CHR ''9''"
  "base58_alphabet ! 9 = CHR ''A''"
  "base58_alphabet ! 10 = CHR ''B''"
  "base58_alphabet ! 11 = CHR ''C''"
  "base58_alphabet ! 12 = CHR ''D''"
  "base58_alphabet ! 13 = CHR ''E''"
  "base58_alphabet ! 14 = CHR ''F''"
  "base58_alphabet ! 15 = CHR ''G''"
  "base58_alphabet ! 16 = CHR ''H''"
  "base58_alphabet ! 17 = CHR ''J''"
  "base58_alphabet ! 18 = CHR ''K''"
  "base58_alphabet ! 19 = CHR ''L''"
  "base58_alphabet ! 20 = CHR ''M''"
  "base58_alphabet ! 21 = CHR ''N''"
  "base58_alphabet ! 22 = CHR ''P''"
  "base58_alphabet ! 23 = CHR ''Q''"
  "base58_alphabet ! 24 = CHR ''R''"
  "base58_alphabet ! 25 = CHR ''S''"
  "base58_alphabet ! 26 = CHR ''T''"
  "base58_alphabet ! 27 = CHR ''U''"
  "base58_alphabet ! 28 = CHR ''V''"
  "base58_alphabet ! 29 = CHR ''W''"
  "base58_alphabet ! 30 = CHR ''X''"
  "base58_alphabet ! 31 = CHR ''Y''"
  "base58_alphabet ! 32 = CHR ''Z''"
  "base58_alphabet ! 33 = CHR ''a''"
  "base58_alphabet ! 34 = CHR ''b''"
  "base58_alphabet ! 35 = CHR ''c''"
  "base58_alphabet ! 36 = CHR ''d''"
  "base58_alphabet ! 37 = CHR ''e''"
  "base58_alphabet ! 38 = CHR ''f''"
  "base58_alphabet ! 39 = CHR ''g''"
  "base58_alphabet ! 40 = CHR ''h''"
  "base58_alphabet ! 41 = CHR ''i''"
  "base58_alphabet ! 42 = CHR ''j''"
  "base58_alphabet ! 43 = CHR ''k''"
  "base58_alphabet ! 44 = CHR ''m''"
  "base58_alphabet ! 45 = CHR ''n''"
  "base58_alphabet ! 46 = CHR ''o''"
  "base58_alphabet ! 47 = CHR ''p''"
  "base58_alphabet ! 48 = CHR ''q''"
  "base58_alphabet ! 49 = CHR ''r''"
  "base58_alphabet ! 50 = CHR ''s''"
  "base58_alphabet ! 51 = CHR ''t''"
  "base58_alphabet ! 52 = CHR ''u''"
  "base58_alphabet ! 53 = CHR ''v''"
  "base58_alphabet ! 54 = CHR ''w''"
  "base58_alphabet ! 55 = CHR ''x''"
  "base58_alphabet ! 56 = CHR ''y''"
  "base58_alphabet ! 57 = CHR ''z''"
  by (simp_all add: base58_alphabet_def)

lemma base58_text_sample_xpub:
  "base58_text (0x04 # 0x88 # 0xb2 # 0x1e # sample_payload @ [0x28, 0x98, 0x4e, 0xe0]) = sample_xpub"
proof -
  have "base58_text (0x04 # 0x88 # 0xb2 # 0x1e # sample_payload @ [0x28, 0x98, 0x4e, 0xe0]) =
      map (\<lambda>d. base58_alphabet ! d)
       [55, 47, 52, 34, 5, 11, 11, 16, 28, 41, 31, 45, 4, 28, 57, 18, 25, 44, 18, 12, 8, 35,
        18, 8, 19, 10, 12, 22, 57, 8, 54, 10, 19, 28, 6, 46, 54, 30, 17, 35, 21, 12, 41, 46,
        13, 26, 21, 53, 40, 48, 40, 28, 51, 42, 2, 9, 10, 45, 28, 27, 13, 24, 21, 8, 33, 28, 0,
        24, 15, 26, 30, 8, 31, 47, 56, 22, 16, 45, 11, 3, 13, 43, 57, 42, 45, 49, 6, 26, 32,
        51, 40, 50, 17, 24, 10, 41, 30, 9, 3, 23, 11, 37, 30, 21, 16, 13, 54, 55, 19, 33, 34]"
    by (rule base58_text_digitsI)
       (simp_all add: buffer_to_nat_def sample_payload_def hex_digit_def)
  then show ?thesis
    by (simp add: base58_alphabet_nth sample_xpub_def)
qed

lemma base58_text_sample_tpub:
  "base58_text (0x04 # 0x35 # 0x87 # 0xcf # sample_payload @ [0x8c, 0xa2, 0x59, 0x98]) = sample_tpub"
proof -
  have "base58_text (0x04 # 0x35 # 0x87 # 0xcf # sample_payload @ [0x8c, 0xa2, 0x59, 0x98]) =
      map (\<lambda>d. base58_alphabet ! d)
       [51, 47, 52, 34, 12, 11, 32, 53, 0, 55, 21, 26, 45, 44, 54, 44, 41, 32, 29, 3, 34, 46,
        17, 13, 31, 5, 31, 44, 18, 16, 1, 48, 18, 50, 35, 50, 28, 8, 51, 52, 41, 44, 44, 54,
        33, 21, 7, 47, 26, 7, 21, 11, 55, 54, 51, 14, 19, 13, 9, 17, 27, 26, 25, 54, 5, 56, 55,
        38, 3, 21, 3, 3, 9, 23, 28, 14, 47, 51, 1, 5, 53, 54, 28, 20, 10, 40, 55, 40, 26, 19,
        9, 9, 21, 0, 54, 1, 11, 39, 41, 36, 45, 35, 6, 45, 2, 17, 28, 45, 10, 12, 16]"
    by (rule base58_text_digitsI)
       (simp_all add: buffer_to_nat_def sample_payload_def hex_digit_def)
  then show ?thesis
    by (simp add: base58_alphabet_nth sample_tpub_def)
qed

lemma base58_text_sample_zprv:
  "base58_text (0x04 # 0xb2 # 0x43 # 0x0c # sample_payload @ [0x61, 0x2d, 0x96, 0xc5]) = sample_zprv"
proof -
  have "base58_text (0x04 # 0xb2 # 0x43 # 0x0c # sample_payload @ [0x61, 0x2d, 0x96, 0xc5]) =
      map (\<lambda>d. base58_alphabet ! d)
       [57, 47, 49, 53, 9, 35, 50, 26, 40, 31, 20, 41, 31, 28, 29, 56, 53, 50, 35, 56, 41, 17,
        20, 22, 22, 12, 26, 38, 45, 3, 22, 33, 47, 15, 21, 55, 23, 30, 24, 26, 7, 36, 5, 55,
        25, 7, 34, 40, 54, 13, 57, 46, 49, 29, 3, 1, 51, 6, 28, 15, 24, 37, 8, 2, 28, 7, 9, 38,
        39, 0, 17, 44, 8, 19, 2, 33, 31, 20, 8, 40, 22, 51, 39, 4, 19, 33, 25, 54, 23, 29, 27,
        52, 30, 5, 15, 10, 48, 37, 51, 18, 47, 13, 44, 24, 17, 20, 46, 27, 25, 10, 37]"
    by (rule base58_text_digitsI)
       (simp_all add: buffer_to_nat_def sample_payload_def hex_digit_def)
  then show ?thesis
    by (simp add: base58_alphabet_nth sample_zprv_def)
qed

lemma base58_text_orphan_xpub:
  "base58_text (0x04 # 0x88 # 0xb2 # 0x1e # orphan_payload @ [0x25, 0xb4, 0x08, 0xbb]) = orphan_xpub"
proof -
  have "base58_text (0x04 # 0x88 # 0xb2 # 0x1e # orphan_payload @ [0x25, 0xb4, 0x08, 0xbb]) =
      map (\<lambda>d. base58_alphabet ! d)
       [55, 47, 52, 34, 5, 5, 0, 20, 56, 20, 54, 26, 29, 43, 38, 31, 35, 31, 11, 8, 8, 9, 4, 4,
        44, 11, 24, 32, 9, 3, 6, 8, 43, 47, 7, 49, 36, 33, 47, 57, 45, 17, 13, 17, 48, 48, 20,
        25, 35, 34, 51, 46, 5, 51, 48, 53, 30, 29, 8, 45, 20, 4, 53, 31, 52, 16, 55, 12, 25, 9,
        34, 44, 9, 25, 2, 5, 34, 3, 44, 28, 53, 45, 31, 2, 38, 38, 12, 55, 53, 24, 18, 30, 9,
        8, 21, 42, 38, 33, 30, 26, 2, 8, 17, 7, 52, 5, 17, 11, 9, 4, 39]"
    by (rule base58_text_digitsI)
       (simp_all add: buffer_to_nat_def orphan_payload_def hex_digit_def)
  then show ?thesis
    by (simp add: base58_alphabet_nth orphan_xpub_def)
qed

lemma sample_encode_simps:
  "sample_encode (0x04 # 0x88 # 0xb2 # 0x1e # sample_payload) = sample_xpub"
  "sample_encode (0x04 # 0x35 # 0x87 # 0xcf # sample_payload) = sample_tpub"
  "sample_encode (0x04 # 0xb2 # 0x43 # 0x0c # sample_payload) = sample_zprv"
  "sample_encode (0x04 # 0x88 # 0xb2 # 0x1e # orphan_payload) = orphan_xpub"
  using base58_text_sample_xpub base58_text_sample_tpub base58_text_sample_zprv
    base58_text_orphan_xpub
  by (simp_all add: sample_encode_def sample_checksum_simps)

lemma sample_fromBase58_simps:
  "sample_fromBase58 sample_xpub MAINNET = Inr ()"
  "sample_fromBase58 sample_xpub TESTNET = Inl ''TypeError: Invalid network version''"
  "sample_fromBase58 sample_tpub TESTNET = Inr ()"
  "sample_fromBase58 orphan_xpub MAINNET = Inl ''TypeError: Invalid parent fingerprint''"
proof -
  have keys:
    "map_of sample_keys sample_xpub = Some (version_bytes ''xpub'' @ sample_payload)"
    "map_of sample_keys sample_tpub = Some (version_bytes ''tpub'' @ sample_payload)"
    "map_of sample_keys orphan_xpub = Some (version_bytes ''xpub'' @ orphan_payload)"
    using sample_decode_simps by (simp_all add: sample_decode_def split: option.splits)
  show "sample_fromBase58 sample_xpub MAINNET = Inr ()"
    "sample_fromBase58 sample_xpub TESTNET = Inl ''TypeError: Invalid network version''"
    "sample_fromBase58 sample_tpub TESTNET = Inr ()"
    "sample_fromBase58 orphan_xpub MAINNET = Inl ''TypeError: Invalid parent fingerprint''"
    by (simp_all add: sample_fromBase58_def keys version_bytes_samples nth_append payload_heads)
qed

lemma sample_distinct:
  "sample_zprv \<noteq> sample_tpub" "orphan_xpub \<noteq> orphan_ypub" "sample_tpub \<noteq> sample_xpub"
  by (simp_all add: sample_zprv_def sample_tpub_def orphan_xpub_def orphan_ypub_def sample_xpub_def)

lemma sample_conversions:
  "extendedPublicKeyConvert sample_libs sample_xpub ''tpub'' =
     \<lparr>extendedPublicKey = sample_tpub,
      message = Some ''Your extended public key has been converted from xpub to tpub'', error = ''''\<rparr>"
  "extendedPublicKeyConvert sample_libs sample_xpub ''zpub'' =
     \<lparr>extendedPublicKey = sample_zprv,
      message = Some ''Your extended public key has been converted from xpub to zpub'', error = ''''\<rparr>"
  "extendedPublicKeyConvert sample_libs sample_zprv ''tpub'' =
     \<lparr>extendedPublicKey = sample_zprv, message = None,
      error = ''Invalid source version for extended public key conversion''\<rparr>"
  "extendedPublicKeyConvert sample_libs orphan_ypub ''xpub'' =
     \<lparr>extendedPublicKey = orphan_xpub,
      message = Some ''Your extended public key has been converted from ypub to xpub'', error = ''''\<rparr>"
  by (simp_all add: extendedPublicKeyConvert_known extendedPublicKeyConvert_unknown_source
      known_prefixes_simp sample_libs_def sample_shapes sample_decode_simps sample_encode_simps
      version_bytes_samples)

lemmas sample_simps =
  sample_shapes sample_fromBase58_simps sample_distinct sample_conversions


subsection \<open>Validation\<close>

lemma networkValidation_iff:
  "extendedPublicKeyNetworkValidateion key net = '''' \<longleftrightarrow> take 4 key \<in> set (canonical_prefixes net)"
  by (cases net) (auto simp: extendedPublicKeyNetworkValidateion_def canonical_prefixes_def split: if_splits)

lemma networkValidation_message:
  "take 4 key \<notin> set (canonical_prefixes net) \<Longrightarrow>
   extendedPublicKeyNetworkValidateion key net =
     (if net = TESTNET then ''Extended public key must begin with 'xpub' or 'tpub'.''
      else ''Extended public key must begin with 'xpub'.'')"
  by (cases net) (auto simp: extendedPublicKeyNetworkValidateion_def canonical_prefixes_def)

lemma preValidation_iff:
  "preExtendedPublicKeyValidation key net = '''' \<longleftrightarrow> 111 \<le> length key"
  by (auto simp: preExtendedPublicKeyValidation_def)

text \<open>
  C2. \<open>validateExtendedPublicKey\<close> returns the empty string exactly when the prefix of the
  key is canonical for the network and \<open>bip32\<close> deserialises the key under the parameters
  of the network; otherwise the message is the one of the first check that fails: blank,
  shorter than 111, wrong prefix, not deserialisable. The premise is the contract of
  \<open>bip32.fromBase58\<close> that a string it accepts has at least 111 characters (the base58check
  text of 78 bytes under a BIP32 version).
\<close>

theorem validateExtendedPublicKey_characterised:
  assumes "bip32_fromBase58 L key (networkData L net) = Inr () \<Longrightarrow> 111 \<le> length key"
  shows "(validateExtendedPublicKey L key net = '''' \<longleftrightarrow>
            take 4 key \<in> set (canonical_prefixes net)
            \<and> bip32_fromBase58 L key (networkData L net) = Inr ())
     \<and> validateExtendedPublicKey L key net =
         (if key = '''' then ''Extended public key cannot be blank.''
          else if length key < 111 then ''Extended public key length is too short.''
          else if take 4 key \<notin> set (canonical_prefixes net)
          then (if net = TESTNET then ''Extended public key must begin with 'xpub' or 'tpub'.''
                else ''Extended public key must begin with 'xpub'.'')
          else (case bip32_fromBase58 L key (networkData L net) of
                  Inl e \<Rightarrow> ''Invalid extended public key: '' @ e
                | Inr u \<Rightarrow> ''''))"
proof -
  have chain: "validateExtendedPublicKey L key net =
         (if key = '''' then ''Extended public key cannot be blank.''
          else if length key < 111 then ''Extended public key length is too short.''
          else if take 4 key \<notin> set (canonical_prefixes net)
          then (if net = TESTNET then ''Extended public key must begin with 'xpub' or 'tpub'.''
                else ''Extended public key must begin with 'xpub'.'')
          else (case bip32_fromBase58 L key (networkData L net) of
                  Inl e \<Rightarrow> ''Invalid extended public key: '' @ e
                | Inr u \<Rightarrow> ''''))"
  proof (cases "take 4 key \<in> set (canonical_prefixes net)")
    case True
    then have "extendedPublicKeyNetworkValidateion key net = ''''"
      by (simp add: networkValidation_iff)
    with True show ?thesis
      by (simp add: validateExtendedPublicKey_def preExtendedPublicKeyValidation_def)
  next
    case False
    then have "extendedPublicKeyNetworkValidateion key net \<noteq> ''''"
      by (simp add: networkValidation_iff)
    with False networkValidation_message [OF False] show ?thesis
      by (simp add: validateExtendedPublicKey_def preExtendedPublicKeyValidation_def)
  qed
  have "validateExtendedPublicKey L key net = '''' \<longleftrightarrow>
          take 4 key \<in> set (canonical_prefixes net)
          \<and> bip32_fromBase58 L key (networkData L net) = Inr ()"
  proof (cases "bip32_fromBase58 L key (networkData L net)")
    case (Inl e)
    then show ?thesis by (simp add: chain)
  next
    case (Inr u)
    with assms have "111 \<le> length key" by simp
    with Inr show ?thesis by (auto simp: chain)
  qed
  with chain show ?thesis by blast
qed

theorem validateExtendedPublicKey_characterised_witness:
  "validateExtendedPublicKey sample_libs sample_xpub MAINNET = ''''
   \<and> take 4 sample_xpub \<in> set (canonical_prefixes MAINNET)
   \<and> validateExtendedPublicKey sample_libs sample_xpub TESTNET
       = ''Invalid extended public key: TypeError: Invalid network version''
   \<and> validateExtendedPublicKey sample_libs ''xpub'' MAINNET = ''Extended public key length is too short.''"
proof -
  have a: "bip32_fromBase58 sample_libs sample_xpub (networkData sample_libs MAINNET) = Inr ()"
    and b: "bip32_fromBase58 sample_libs sample_xpub (networkData sample_libs TESTNET)
              = Inl ''TypeError: Invalid network version''"
    and c: "bip32_fromBase58 sample_libs ''xpub'' (networkData sample_libs MAINNET)
              = Inl ''Error: Invalid checksum''"
    by (simp_all add: sample_libs_def sample_fromBase58_simps)
       (simp add: sample_fromBase58_def sample_keys_def sample_xpub_def sample_tpub_def
          sample_ypub_def sample_zprv_def orphan_xpub_def orphan_tpub_def orphan_ypub_def
          orphan_zprv_def)
  have long: "111 \<le> length sample_xpub" by (simp add: sample_shapes)
  then have ne: "sample_xpub \<noteq> []" by auto
  have main: "validateExtendedPublicKey sample_libs sample_xpub MAINNET = ''''"
    using validateExtendedPublicKey_characterised [of sample_libs sample_xpub MAINNET] a long ne
    by (simp add: sample_shapes canonical_prefixes_def)
  have test: "validateExtendedPublicKey sample_libs sample_xpub TESTNET
       = ''Invalid extended public key: TypeError: Invalid network version''"
    using validateExtendedPublicKey_characterised [of sample_libs sample_xpub TESTNET] b long ne
    by (simp add: sample_shapes canonical_prefixes_def)
  have short: "validateExtendedPublicKey sample_libs ''xpub'' MAINNET
       = ''Extended public key length is too short.''"
    using validateExtendedPublicKey_characterised [of sample_libs "''xpub''" MAINNET] c
    by simp
  from main test short show ?thesis
    by (simp add: sample_shapes canonical_prefixes_def)
qed


subsection \<open>Conversion results\<close>

lemma sample_validations:
  "validateExtendedPublicKey sample_libs orphan_xpub MAINNET
     = ''Invalid extended public key: TypeError: Invalid parent fingerprint''"
  "validateExtendedPublicKey sample_libs orphan_ypub MAINNET = ''Extended public key must begin with 'xpub'.''"
  "validateExtendedPublicKey sample_libs sample_xpub MAINNET = ''''"
  by (simp_all add: validateExtendedPublicKey_def preExtendedPublicKeyValidation_def
      extendedPublicKeyNetworkValidateion_def sample_shapes sample_libs_def sample_fromBase58_simps)
     (simp_all add: sample_xpub_def orphan_xpub_def orphan_ypub_def)

lemma sample_orphan_result:
  "convertAndValidateExtendedPublicKey sample_libs orphan_ypub MAINNET =
     \<lparr>extendedPublicKey = orphan_ypub, message = None,
      error = ''Invalid extended public key: TypeError: Invalid parent fingerprint''\<rparr>"
proof -
  have "preExtendedPublicKeyValidation orphan_ypub MAINNET = ''''"
    by (simp add: preValidation_iff sample_shapes)
  moreover have "extendedPublicKeyNetworkValidateion orphan_ypub MAINNET \<noteq> ''''"
    by (simp add: networkValidation_iff sample_shapes canonical_prefixes_def)
  ultimately show ?thesis
    by (simp add: convertAndValidateExtendedPublicKey_def sample_conversions sample_validations
        sample_distinct)
qed

text \<open>
  C3. Every result of \<open>extendedPublicKeyConvert\<close> and of
  \<open>convertAndValidateExtendedPublicKey\<close> satisfies the invariant of conversion results:
  it never carries both a non-empty message and a non-empty error, and a non-empty error
  comes with the input key unchanged.
\<close>

theorem conversion_results_invariant:
  "conversion_invariant key (extendedPublicKeyConvert L key targetPrefix)
   \<and> conversion_invariant key (convertAndValidateExtendedPublicKey L key net)"
  by (simp add: convert_invariant convertAndValidate_invariant)

theorem conversion_results_invariant_witness:
  "error (extendedPublicKeyConvert sample_libs orphan_ypub ''apub'') \<noteq> ''''
   \<and> extendedPublicKey (extendedPublicKeyConvert sample_libs orphan_ypub ''apub'') = orphan_ypub
   \<and> \<not> has_message (extendedPublicKeyConvert sample_libs orphan_ypub ''apub'')
   \<and> error (convertAndValidateExtendedPublicKey sample_libs orphan_ypub MAINNET) \<noteq> ''''
   \<and> extendedPublicKey (convertAndValidateExtendedPublicKey sample_libs orphan_ypub MAINNET) = orphan_ypub
   \<and> \<not> has_message (convertAndValidateExtendedPublicKey sample_libs orphan_ypub MAINNET)"
proof -
  have e1: "error (extendedPublicKeyConvert sample_libs orphan_ypub ''apub'') \<noteq> ''''"
    by (simp add: extendedPublicKeyConvert_def validatePrefix_def extendedPublicKeyVersions_def)
  have e2: "error (convertAndValidateExtendedPublicKey sample_libs orphan_ypub MAINNET) \<noteq> ''''"
    by (simp add: sample_orphan_result)
  from conversion_results_invariant [of orphan_ypub sample_libs "''apub''" MAINNET] e1 e2
  show ?thesis by (simp add: conversion_invariant_def)
qed

text \<open>
  C6. A key that is already canonical for its network (at least 111 characters, a prefix
  the network accepts, deserialisable by \<open>bip32\<close> under the network) comes back unchanged
  with an empty message and an empty error. No conversion is made: the result is the same
  whatever \<open>bs58check\<close> would do.
\<close>

theorem canonical_key_returned_unchanged:
  assumes "111 \<le> length key"
    and "take 4 key \<in> set (canonical_prefixes net)"
    and "bip32_fromBase58 L key (networkData L net) = Inr ()"
  shows "convertAndValidateExtendedPublicKey (L\<lparr>bs58check_decode := dec, bs58check_encode := enc\<rparr>) key net
           = \<lparr>extendedPublicKey = key, message = Some '''', error = ''''\<rparr>
     \<and> convertAndValidateExtendedPublicKey L key net
           = \<lparr>extendedPublicKey = key, message = Some '''', error = ''''\<rparr>"
proof -
  have pre: "preExtendedPublicKeyValidation key net = ''''"
    using assms(1) by (simp add: preValidation_iff)
  have nw: "extendedPublicKeyNetworkValidateion key net = ''''"
    using assms(2) by (simp add: networkValidation_iff)
  have "validateExtendedPublicKey L' key net = ''''"
    if "bip32_fromBase58 L' key (networkData L' net) = Inr ()" for L' :: "'a key_libs"
    using that pre nw by (simp add: validateExtendedPublicKey_def)
  from this [of L] this [of "L\<lparr>bs58check_decode := dec, bs58check_encode := enc\<rparr>"] assms(3) pre nw
  show ?thesis
    by (simp add: convertAndValidateExtendedPublicKey_def)
qed

theorem canonical_key_returned_unchanged_witness:
  "111 \<le> length sample_xpub \<and> take 4 sample_xpub \<in> set (canonical_prefixes MAINNET)
   \<and> convertAndValidateExtendedPublicKey sample_libs sample_xpub MAINNET
       = \<lparr>extendedPublicKey = sample_xpub, message = Some '''', error = ''''\<rparr>"
proof -
  have a: "111 \<le> length sample_xpub"
    and b: "take 4 sample_xpub \<in> set (canonical_prefixes MAINNET)"
    and c: "bip32_fromBase58 sample_libs sample_xpub (networkData sample_libs MAINNET) = Inr ()"
    by (simp_all add: sample_shapes canonical_prefixes_def sample_libs_def sample_fromBase58_simps)
  from canonical_key_returned_unchanged [OF a b c] a b show ?thesis
    by simp
qed

text \<open>
  C7. When \<open>convertAndValidateExtendedPublicKey\<close> reaches the conversion (the preliminary
  checks pass and the key is not already valid for the network), the conversion changes
  the string, and the converted key fails \<open>validateExtendedPublicKey\<close>, the result carries
  the original key and the validation error of the converted key.
\<close>

theorem failed_conversion_reports_original_key:
  assumes "preExtendedPublicKeyValidation key net = ''''"
    and "\<not> (extendedPublicKeyNetworkValidateion key net = '''' \<and> validateExtendedPublicKey L key net = '''')"
    and "converted = extendedPublicKey (extendedPublicKeyConvert L key (if net = TESTNET then ''tpub'' else ''xpub''))"
    and "converted \<noteq> key"
    and "validateExtendedPublicKey L converted net \<noteq> ''''"
  shows "convertAndValidateExtendedPublicKey L key net
           = \<lparr>extendedPublicKey = key, message = None, error = validateExtendedPublicKey L converted net\<rparr>"
  using assms by (auto simp: convertAndValidateExtendedPublicKey_def Let_def)

theorem failed_conversion_reports_original_key_witness:
  "extendedPublicKey (extendedPublicKeyConvert sample_libs orphan_ypub ''xpub'') = orphan_xpub
   \<and> orphan_xpub \<noteq> orphan_ypub
   \<and> validateExtendedPublicKey sample_libs orphan_xpub MAINNET
       = ''Invalid extended public key: TypeError: Invalid parent fingerprint''
   \<and> convertAndValidateExtendedPublicKey sample_libs orphan_ypub MAINNET
       = \<lparr>extendedPublicKey = orphan_ypub, message = None,
          error = ''Invalid extended public key: TypeError: Invalid parent fingerprint''\<rparr>"
proof -
  have a: "preExtendedPublicKeyValidation orphan_ypub MAINNET = ''''"
    by (simp add: preValidation_iff sample_shapes)
  have b: "\<not> (extendedPublicKeyNetworkValidateion orphan_ypub MAINNET = ''''
              \<and> validateExtendedPublicKey sample_libs orphan_ypub MAINNET = '''')"
    by (simp add: networkValidation_iff sample_shapes canonical_prefixes_def)
  have c: "orphan_xpub = extendedPublicKey (extendedPublicKeyConvert sample_libs orphan_ypub
              (if MAINNET = TESTNET then ''tpub'' else ''xpub''))"
    by (simp add: sample_conversions)
  have d: "orphan_xpub \<noteq> orphan_ypub"
    by (simp add: sample_distinct)
  have e: "validateExtendedPublicKey sample_libs orphan_xpub MAINNET \<noteq> ''''"
    by (simp add: sample_validations)
  from failed_conversion_reports_original_key [OF a b c d e] d show ?thesis
    by (simp add: sample_conversions sample_validations)
qed


subsection \<open>White space around the key\<close>

lemma whitespace_head_unknown:
  assumes "key \<noteq> []" and "js_whitespace (hd key)"
  shows "take 4 key \<notin> set known_prefixes"
proof -
  from assms(1) obtain c rest where key: "key = c # rest" by (cases key) auto
  with assms(2) have "js_whitespace c" by simp
  then have "c \<notin> set ''xyzYZtuvUV''"
    by (auto simp: js_whitespace_def)
  then show ?thesis
    by (auto simp: key known_prefixes_simp)
qed

text \<open>
  C10, as the code has it. The check of the target prefix comes first, so the statement
  needs a known target prefix. Then
  \<^item> an input that starts with white space gets the error of an invalid source version
    and comes back unchanged, whatever its trimmed form is, since the source prefix is
    read from the untrimmed input;
  \<^item> an input whose first four characters are a known prefix is converted from what
    \<open>bs58check\<close> decodes the trimmed input to, so white space behind the key is dropped
    before the decoding;
  \<^item> for an input without white space the decoded string is the input itself.
\<close>

theorem leading_whitespace_invalid_source:
  assumes "targetPrefix \<in> set known_prefixes"
  shows "(key \<noteq> '''' \<and> js_whitespace (hd key) \<longrightarrow>
            extendedPublicKeyConvert L key targetPrefix =
              \<lparr>extendedPublicKey = key, message = None,
               error = ''Invalid source version for extended public key conversion''\<rparr>)
     \<and> (take 4 key \<in> set known_prefixes \<longrightarrow>
            extendedPublicKeyConvert L key targetPrefix =
              (case bs58check_decode L (trim key) of
                 Inl err \<Rightarrow>
                   \<lparr>extendedPublicKey = key, message = None,
                    error = ''Unable to convert extended public key: '' @ err\<rparr>
               | Inr decoded \<Rightarrow>
                   \<lparr>extendedPublicKey = bs58check_encode L (version_bytes targetPrefix @ drop 4 decoded),
                    message = Some (''Your extended public key has been converted from ''
                      @ take 4 key @ '' to '' @ targetPrefix),
                    error = ''''\<rparr>))
     \<and> ((\<forall>c\<in>set key. \<not> js_whitespace c) \<longrightarrow>
            extendedPublicKeyConvert L key targetPrefix =
              (if take 4 key \<in> set known_prefixes
               then (case bs58check_decode L key of
                       Inl err \<Rightarrow>
                         \<lparr>extendedPublicKey = key, message = None,
                          error = ''Unable to convert extended public key: '' @ err\<rparr>
                     | Inr decoded \<Rightarrow>
                         \<lparr>extendedPublicKey = bs58check_encode L (version_bytes targetPrefix @ drop 4 decoded),
                          message = Some (''Your extended public key has been converted from ''
                            @ take 4 key @ '' to '' @ targetPrefix),
                          error = ''''\<rparr>)
               else \<lparr>extendedPublicKey = key, message = None,
                     error = ''Invalid source version for extended public key conversion''\<rparr>))"
proof (intro conjI impI)
  assume "key \<noteq> '''' \<and> js_whitespace (hd key)"
  then have "take 4 key \<notin> set known_prefixes"
    by (simp add: whitespace_head_unknown)
  then show "extendedPublicKeyConvert L key targetPrefix =
      \<lparr>extendedPublicKey = key, message = None,
       error = ''Invalid source version for extended public key conversion''\<rparr>"
    by (rule extendedPublicKeyConvert_unknown_source [OF assms])
next
  assume "take 4 key \<in> set known_prefixes"
  then show "extendedPublicKeyConvert L key targetPrefix =
      (case bs58check_decode L (trim key) of
         Inl err \<Rightarrow>
           \<lparr>extendedPublicKey = key, message = None,
            error = ''Unable to convert extended public key: '' @ err\<rparr>
       | Inr decoded \<Rightarrow>
           \<lparr>extendedPublicKey = bs58check_encode L (version_bytes targetPrefix @ drop 4 decoded),
            message = Some (''Your extended public key has been converted from ''
              @ take 4 key @ '' to '' @ targetPrefix),
            error = ''''\<rparr>)"
    by (rule extendedPublicKeyConvert_known [OF assms])
next
  assume "\<forall>c\<in>set key. \<not> js_whitespace c"
  then have tr: "trim key = key"
    by (rule trim_no_whitespace)
  show "extendedPublicKeyConvert L key targetPrefix =
      (if take 4 key \<in> set known_prefixes
       then (case bs58check_decode L key of
               Inl err \<Rightarrow>
                 \<lparr>extendedPublicKey = key, message = None,
                  error = ''Unable to convert extended public key: '' @ err\<rparr>
             | Inr decoded \<Rightarrow>
                 \<lparr>extendedPublicKey = bs58check_encode L (version_bytes targetPrefix @ drop 4 decoded),
                  message = Some (''Your extended public key has been converted from ''
                    @ take 4 key @ '' to '' @ targetPrefix),
                  error = ''''\<rparr>)
       else \<lparr>extendedPublicKey = key, message = None,
             error = ''Invalid source version for extended public key conversion''\<rparr>)"
  proof (cases "take 4 key \<in> set known_prefixes")
    case True
    then show ?thesis
      using extendedPublicKeyConvert_known [OF assms True, of L] by (simp add: tr)
  next
    case False
    then show ?thesis
      using extendedPublicKeyConvert_unknown_source [OF assms False, of L] by simp
  qed
qed

text \<open>
  On the sample key towards \<open>tpub\<close>: with a space in front the key is refused although
  its trimmed form converts; with a space behind it converts as the key itself does.
\<close>

theorem leading_whitespace_invalid_source_witness:
  "''tpub'' \<in> set known_prefixes \<and> js_whitespace (hd ('' '' @ sample_xpub))
   \<and> extendedPublicKeyConvert sample_libs ('' '' @ sample_xpub) ''tpub'' =
        \<lparr>extendedPublicKey = '' '' @ sample_xpub, message = None,
         error = ''Invalid source version for extended public key conversion''\<rparr>
   \<and> trim ('' '' @ sample_xpub) = sample_xpub
   \<and> extendedPublicKey (extendedPublicKeyConvert sample_libs (trim ('' '' @ sample_xpub)) ''tpub'') = sample_tpub
   \<and> take 4 (sample_xpub @ '' '') \<in> set known_prefixes
   \<and> extendedPublicKeyConvert sample_libs (sample_xpub @ '' '') ''tpub'' =
        \<lparr>extendedPublicKey = sample_tpub,
         message = Some ''Your extended public key has been converted from xpub to tpub'',
         error = ''''\<rparr>
   \<and> list_all (\<lambda>c. \<not> js_whitespace c) sample_xpub
   \<and> extendedPublicKeyConvert sample_libs sample_xpub ''tpub'' =
        \<lparr>extendedPublicKey = sample_tpub,
         message = Some ''Your extended public key has been converted from xpub to tpub'',
         error = ''''\<rparr>"
proof -
  have t: "''tpub'' \<in> set known_prefixes"
    by (simp add: known_prefixes_simp)
  have w: "'' '' @ sample_xpub \<noteq> '''' \<and> js_whitespace (hd ('' '' @ sample_xpub))"
    by (simp add: js_whitespace_def)
  have f: "\<forall>c\<in>set sample_xpub. \<not> js_whitespace c"
    by (simp add: js_whitespace_def sample_xpub_def)
  have tr: "trim ('' '' @ sample_xpub) = sample_xpub"
    using sample_shapes(3) by (simp add: trim_def js_whitespace_def sample_xpub_def)
  have tr': "trim (sample_xpub @ '' '') = sample_xpub"
    using sample_shapes(3) by (simp add: trim_def js_whitespace_def sample_xpub_def)
  have k: "take 4 (sample_xpub @ '' '') = ''xpub''" "take 4 sample_xpub = ''xpub''"
    by (simp_all add: sample_shapes)
  then have kx: "take 4 (sample_xpub @ '' '') \<in> set known_prefixes"
    by (simp add: known_prefixes_simp)
  have front: "extendedPublicKeyConvert sample_libs ('' '' @ sample_xpub) ''tpub'' =
        \<lparr>extendedPublicKey = '' '' @ sample_xpub, message = None,
         error = ''Invalid source version for extended public key conversion''\<rparr>"
    by (rule leading_whitespace_invalid_source [OF t, THEN conjunct1, THEN mp]) (rule w)
  from leading_whitespace_invalid_source [OF t, THEN conjunct2, THEN conjunct1, THEN mp, OF kx, of sample_libs]
  have rear: "extendedPublicKeyConvert sample_libs (sample_xpub @ '' '') ''tpub'' =
        \<lparr>extendedPublicKey = sample_tpub,
         message = Some ''Your extended public key has been converted from xpub to tpub'',
         error = ''''\<rparr>"
    by (simp add: tr' k sample_libs_def sample_shapes sample_decode_simps sample_encode_simps
        version_bytes_samples)
  from leading_whitespace_invalid_source [OF t, THEN conjunct2, THEN conjunct2, THEN mp, OF f, of sample_libs]
  have plain: "extendedPublicKeyConvert sample_libs sample_xpub ''tpub'' =
        \<lparr>extendedPublicKey = sample_tpub,
         message = Some ''Your extended public key has been converted from xpub to tpub'',
         error = ''''\<rparr>"
    by (simp add: k known_prefixes_simp sample_libs_def sample_shapes sample_decode_simps
        sample_encode_simps version_bytes_samples)
  have conv: "extendedPublicKey (extendedPublicKeyConvert sample_libs (trim ('' '' @ sample_xpub)) ''tpub'') = sample_tpub"
    unfolding tr plain by simp
  from f have free: "list_all (\<lambda>c. \<not> js_whitespace c) sample_xpub"
    by (simp only: list_all_iff)
  from t w free tr kx front rear plain conv show ?thesis
    by (intro conjI) (simp_all only: simp_thms)
qed

text \<open>
  The claim as stated fails for a target prefix outside the table: the error is then the
  one of the target prefix.
\<close>

theorem leading_whitespace_unknown_target:
  "js_whitespace (hd ('' '' @ sample_xpub))
   \<and> extendedPublicKeyConvert sample_libs ('' '' @ sample_xpub) ''apub'' =
        \<lparr>extendedPublicKey = '' '' @ sample_xpub, message = None,
         error = ''Invalid target version for extended public key conversion''\<rparr>
   \<and> error (extendedPublicKeyConvert sample_libs ('' '' @ sample_xpub) ''apub'')
        \<noteq> ''Invalid source version for extended public key conversion''"
  by (simp add: js_whitespace_def extendedPublicKeyConvert_def validatePrefix_def
      extendedPublicKeyVersions_def)

subsection \<open>Conversion through an intermediate prefix\<close>

lemma version_bytes_length:
  assumes "p \<in> set known_prefixes"
  shows "length (version_bytes p) = 4"
proof -
  from assms have "p \<in> set [''xpub'', ''ypub'', ''zpub'', ''Ypub'', ''Zpub'', ''tpub'', ''upub'', ''vpub'', ''Upub'', ''Vpub'']"
    by (simp add: known_prefixes_simp)
  then show ?thesis
    by (auto simp: version_bytes_def extendedPublicKeyVersions_def hex_digit_def)
qed

text \<open>
  The swap of the version bytes itself composes: when the key converted to \<open>P\<close> still
  begins with a prefix of the table and \<open>bs58check\<close> decodes it to the bytes it was
  encoded from, converting it on to \<open>Q\<close> gives what converting the original key to \<open>Q\<close>
  gives.
\<close>

lemma convert_through_intermediate:
  assumes P: "P \<in> set known_prefixes" and Q: "Q \<in> set known_prefixes"
    and src: "take 4 key \<in> set known_prefixes"
    and dec: "bs58check_decode L (trim key) = Inr bytes"
    and mid: "take 4 (bs58check_encode L (version_bytes P @ drop 4 bytes)) \<in> set known_prefixes"
    and rt: "bs58check_decode L (trim (bs58check_encode L (version_bytes P @ drop 4 bytes)))
               = Inr (version_bytes P @ drop 4 bytes)"
  shows "extendedPublicKey (extendedPublicKeyConvert L (extendedPublicKey (extendedPublicKeyConvert L key P)) Q)
           = extendedPublicKey (extendedPublicKeyConvert L key Q)"
proof -
  have one: "extendedPublicKey (extendedPublicKeyConvert L key P)
               = bs58check_encode L (version_bytes P @ drop 4 bytes)"
    by (simp add: extendedPublicKeyConvert_known [OF P src] dec)
  have two: "extendedPublicKey (extendedPublicKeyConvert L key Q)
               = bs58check_encode L (version_bytes Q @ drop 4 bytes)"
    by (simp add: extendedPublicKeyConvert_known [OF Q src] dec)
  show ?thesis
    unfolding one two
    by (simp add: extendedPublicKeyConvert_known [OF Q mid] rt version_bytes_length [OF P])
qed

text \<open>
  The intermediate prefix \<open>zpub\<close> does not keep a prefix of the table. Whenever
  \<open>bs58check.encode\<close> writes the base58 text of the bytes and a checksum of four bytes, a
  key of 78 bytes converted to \<open>zpub\<close> begins with \<open>zprv\<close>, a further conversion returns
  it with the source error, and for every other target \<open>Q\<close> of the table the result
  differs from the direct conversion to \<open>Q\<close>.
\<close>

lemma zpub_conversion_refused:
  assumes src: "take 4 key \<in> set known_prefixes"
    and dec: "bs58check_decode L (trim key) = Inr bytes"
    and len: "length bytes = 78"
    and enc: "\<And>b. bs58check_encode L b = base58_text (b @ checksum b)"
    and chk: "\<And>b. length (checksum b) = 4"
    and Q: "Q \<in> set known_prefixes"
  shows "take 4 (extendedPublicKey (extendedPublicKeyConvert L key ''zpub'')) = ''zprv''"
    and "extendedPublicKeyConvert L (extendedPublicKey (extendedPublicKeyConvert L key ''zpub'')) Q =
           \<lparr>extendedPublicKey = extendedPublicKey (extendedPublicKeyConvert L key ''zpub''),
            message = None,
            error = ''Invalid source version for extended public key conversion''\<rparr>"
    and "Q \<noteq> ''zpub'' \<Longrightarrow>
           extendedPublicKey (extendedPublicKeyConvert L (extendedPublicKey (extendedPublicKeyConvert L key ''zpub'')) Q)
             \<noteq> extendedPublicKey (extendedPublicKeyConvert L key Q)"
proof -
  have z: "''zpub'' \<in> set known_prefixes"
    by (simp add: known_prefixes_simp)
  have rest: "length (drop 4 bytes @ checksum (version_bytes p @ drop 4 bytes)) = 78" for p
    by (simp add: len chk)
  have text_of: "extendedPublicKey (extendedPublicKeyConvert L key p)
      = base58_text (version_bytes p @ drop 4 bytes @ checksum (version_bytes p @ drop 4 bytes))"
    if "p \<in> set known_prefixes" for p
    by (simp add: extendedPublicKeyConvert_known [OF that src] dec enc)
  show zprv: "take 4 (extendedPublicKey (extendedPublicKeyConvert L key ''zpub'')) = ''zprv''"
    unfolding text_of [OF z] by (rule base58_prefix_zpub [OF rest])
  have "''zprv'' \<notin> set known_prefixes"
    by (simp add: known_prefixes_simp)
  with zprv have "take 4 (extendedPublicKey (extendedPublicKeyConvert L key ''zpub'')) \<notin> set known_prefixes"
    by simp
  from extendedPublicKeyConvert_unknown_source [OF Q this]
  show refused: "extendedPublicKeyConvert L (extendedPublicKey (extendedPublicKeyConvert L key ''zpub'')) Q =
           \<lparr>extendedPublicKey = extendedPublicKey (extendedPublicKeyConvert L key ''zpub''),
            message = None,
            error = ''Invalid source version for extended public key conversion''\<rparr>" .
  show "extendedPublicKey (extendedPublicKeyConvert L (extendedPublicKey (extendedPublicKeyConvert L key ''zpub'')) Q)
          \<noteq> extendedPublicKey (extendedPublicKeyConvert L key Q)" if "Q \<noteq> ''zpub''"
  proof
    assume "extendedPublicKey (extendedPublicKeyConvert L (extendedPublicKey (extendedPublicKeyConvert L key ''zpub'')) Q)
          = extendedPublicKey (extendedPublicKeyConvert L key Q)"
    with refused have "extendedPublicKey (extendedPublicKeyConvert L key ''zpub'')
          = extendedPublicKey (extendedPublicKeyConvert L key Q)"
      by simp
    then have "take 4 (extendedPublicKey (extendedPublicKeyConvert L key ''zpub''))
          = take 4 (extendedPublicKey (extendedPublicKeyConvert L key Q))"
      by simp
    moreover have "take 4 (extendedPublicKey (extendedPublicKeyConvert L key Q)) = Q"
      unfolding text_of [OF Q] using base58_prefix_of_version [OF Q rest] that by simp
    ultimately have "Q = ''zprv''"
      using zprv by simp
    with Q show False
      by (simp add: known_prefixes_simp)
  qed
qed

text \<open>
  C4 fails on the code. The version bytes the table gives for \<open>zpub\<close>, \<open>04b2430c\<close>,
  are those of \<open>zprv\<close>: a key converted to \<open>zpub\<close> is encoded with the prefix \<open>zprv\<close>,
  which is not in the table, so the second conversion refuses it and returns it as it
  is. Here for the sample key, \<open>P = zpub\<close> and \<open>Q = tpub\<close>.
\<close>

theorem zpub_breaks_intermediate_conversion:
  "extendedPublicKeyConvert sample_libs sample_xpub ''zpub'' =
     \<lparr>extendedPublicKey = sample_zprv,
      message = Some ''Your extended public key has been converted from xpub to zpub'', error = ''''\<rparr>
   \<and> take 4 sample_zprv = ''zprv''
   \<and> extendedPublicKeyConvert sample_libs
        (extendedPublicKey (extendedPublicKeyConvert sample_libs sample_xpub ''zpub'')) ''tpub'' =
     \<lparr>extendedPublicKey = sample_zprv, message = None,
      error = ''Invalid source version for extended public key conversion''\<rparr>
   \<and> extendedPublicKey (extendedPublicKeyConvert sample_libs sample_xpub ''tpub'') = sample_tpub
   \<and> extendedPublicKey (extendedPublicKeyConvert sample_libs
        (extendedPublicKey (extendedPublicKeyConvert sample_libs sample_xpub ''zpub'')) ''tpub'')
      \<noteq> extendedPublicKey (extendedPublicKeyConvert sample_libs sample_xpub ''tpub'')"
  by (simp add: sample_conversions sample_shapes sample_distinct)

subsection \<open>Compression of a public key\<close>

lemma hex_digit_hex_char: "n < 16 \<Longrightarrow> hex_digit (hex_char n) = Some n"
proof -
  assume "n < 16"
  then have "n \<in> {0, 1, 2, 3, 4, 5, 6, 7, 8, 9, 10, 11, 12, 13, 14, 15}"
    by (simp; arith)
  then show ?thesis
    by (auto simp: hex_char_def hex_digit_def)
qed

lemma buffer_to_hex_Cons:
  "buffer_to_hex (b # bs) = hex_char (unat b div 16) # hex_char (unat b mod 16) # buffer_to_hex bs"
  by (simp add: buffer_to_hex_def)

lemma buffer_to_hex_Nil: "buffer_to_hex [] = []"
  by (simp add: buffer_to_hex_def)

lemma unat_byte_div: "unat (b :: 8 word) div 16 < 16"
proof -
  have "unat b < 256" using unsigned_less [of b, where 'a = nat] by simp
  then show ?thesis by simp
qed

lemma buffer_from_to_hex: "buffer_from_hex (buffer_to_hex bs) = bs"
proof (induction bs)
  case Nil
  show ?case by (simp add: buffer_to_hex_Nil)
next
  case (Cons b bs)
  have "word_of_nat (16 * (unat b div 16) + unat b mod 16) = b"
    by simp
  with Cons show ?case
    by (simp add: buffer_to_hex_Cons hex_digit_hex_char unat_byte_div)
qed

lemma length_buffer_to_hex: "length (buffer_to_hex bs) = 2 * length bs"
  by (induction bs) (simp_all add: buffer_to_hex_Cons buffer_to_hex_Nil)

lemma low_bit_byte: "(b :: 8 word) AND 1 \<noteq> 0 \<longleftrightarrow> odd b"
  by (simp add: and_one_eq even_iff_mod_2_eq_zero)

text \<open>
  C5. For a hexadecimal string that encodes 65 bytes, \<open>compressPublicKey\<close> returns the
  hexadecimal text of 33 bytes: \<open>03\<close> when the low bit of byte 64 is set and \<open>02\<close>
  when it is not, then bytes 1 to 32 of the input.
\<close>

theorem compressPublicKey_uncompressed:
  assumes "length (buffer_from_hex publicKey) = 65"
  shows "let key = buffer_from_hex publicKey;
             compressed = (if bit (key ! 64) 0 then 0x03 else 0x02) # take 32 (drop 1 key)
         in compressPublicKey publicKey = buffer_to_hex compressed
            \<and> buffer_from_hex (compressPublicKey publicKey) = compressed
            \<and> length compressed = 33
            \<and> length (compressPublicKey publicKey) = 66"
proof -
  define key where "key = buffer_from_hex publicKey"
  define compressed where "compressed = (if bit (key ! 64) 0 then 0x03 else 0x02) # take 32 (drop 1 key)"
  have len: "length key = 65"
    using assms by (simp add: key_def)
  have "((key ! 64) AND 1 \<noteq> 0) = bit (key ! 64) 0"
    by (simp add: low_bit_byte bit_0)
  then have res: "compressPublicKey publicKey = buffer_to_hex compressed"
    using len by (simp add: compressPublicKey_def Let_def key_def [symmetric] compressed_def)
  have l33: "length compressed = 33"
    using len by (simp add: compressed_def)
  show ?thesis
    unfolding Let_def key_def [symmetric] compressed_def [symmetric]
    using res l33 by (simp add: buffer_from_to_hex length_buffer_to_hex)
qed

theorem compressPublicKey_uncompressed_witness:
  "length (buffer_from_hex ''04b32dc780fba98db25b4b72cf2b69da228f5e10ca6aa8f46eabe7f9fe22c994ee6e43c09d025c2ad322382347ec0f69b4e78d8e23c8ff9aa0dd0cb93665ae83d5'') = 65
   \<and> compressPublicKey ''04b32dc780fba98db25b4b72cf2b69da228f5e10ca6aa8f46eabe7f9fe22c994ee6e43c09d025c2ad322382347ec0f69b4e78d8e23c8ff9aa0dd0cb93665ae83d5''
       = ''03b32dc780fba98db25b4b72cf2b69da228f5e10ca6aa8f46eabe7f9fe22c994ee''
   \<and> length (buffer_from_hex ''0479be667ef9dcbbac55a06295ce870b07029bfcdb2dce28d959f2815b16f81798483ada7726a3c4655da4fbfc0e1108a8fd17b448a68554199c47d08ffb10d4b8'') = 65
   \<and> compressPublicKey ''0479be667ef9dcbbac55a06295ce870b07029bfcdb2dce28d959f2815b16f81798483ada7726a3c4655da4fbfc0e1108a8fd17b448a68554199c47d08ffb10d4b8''
       = ''0279be667ef9dcbbac55a06295ce870b07029bfcdb2dce28d959f2815b16f81798''"
proof -
  define k1 where "k1 = buffer_from_hex ''04b32dc780fba98db25b4b72cf2b69da228f5e10ca6aa8f46eabe7f9fe22c994ee6e43c09d025c2ad322382347ec0f69b4e78d8e23c8ff9aa0dd0cb93665ae83d5''"
  define k2 where "k2 = buffer_from_hex ''0479be667ef9dcbbac55a06295ce870b07029bfcdb2dce28d959f2815b16f81798483ada7726a3c4655da4fbfc0e1108a8fd17b448a68554199c47d08ffb10d4b8''"
  have v1: "k1 = [0x04, 0xb3, 0x2d, 0xc7, 0x80, 0xfb, 0xa9, 0x8d, 0xb2, 0x5b, 0x4b, 0x72, 0xcf, 0x2b, 0x69, 0xda,
      0x22, 0x8f, 0x5e, 0x10, 0xca, 0x6a, 0xa8, 0xf4, 0x6e, 0xab, 0xe7, 0xf9, 0xfe, 0x22, 0xc9, 0x94, 0xee,
      0x6e, 0x43, 0xc0, 0x9d, 0x02, 0x5c, 0x2a, 0xd3, 0x22, 0x38, 0x23, 0x47, 0xec, 0x0f, 0x69, 0xb4,
      0xe7, 0x8d, 0x8e, 0x23, 0xc8, 0xff, 0x9a, 0xa0, 0xdd, 0x0c, 0xb9, 0x36, 0x65, 0xae, 0x83, 0xd5]"
    by (simp add: k1_def hex_digit_def)
  have v2: "k2 = [0x04, 0x79, 0xbe, 0x66, 0x7e, 0xf9, 0xdc, 0xbb, 0xac, 0x55, 0xa0, 0x62, 0x95, 0xce, 0x87, 0x0b,
      0x07, 0x02, 0x9b, 0xfc, 0xdb, 0x2d, 0xce, 0x28, 0xd9, 0x59, 0xf2, 0x81, 0x5b, 0x16, 0xf8, 0x17, 0x98,
      0x48, 0x3a, 0xda, 0x77, 0x26, 0xa3, 0xc4, 0x65, 0x5d, 0xa4, 0xfb, 0xfc, 0x0e, 0x11, 0x08, 0xa8,
      0xfd, 0x17, 0xb4, 0x48, 0xa6, 0x85, 0x54, 0x19, 0x9c, 0x47, 0xd0, 0x8f, 0xfb, 0x10, 0xd4, 0xb8]"
    by (simp add: k2_def hex_digit_def)
  have l1: "length k1 = 65" and l2: "length k2 = 65"
    by (simp_all add: v1 v2)
  have c1: "buffer_to_hex ((if bit (k1 ! 64) 0 then 0x03 else 0x02) # take 32 (drop 1 k1))
              = ''03b32dc780fba98db25b4b72cf2b69da228f5e10ca6aa8f46eabe7f9fe22c994ee''"
    by (simp add: v1 buffer_to_hex_def hex_char_def bit_0)
  have c2: "buffer_to_hex ((if bit (k2 ! 64) 0 then 0x03 else 0x02) # take 32 (drop 1 k2))
              = ''0279be667ef9dcbbac55a06295ce870b07029bfcdb2dce28d959f2815b16f81798''"
    by (simp add: v2 buffer_to_hex_def hex_char_def bit_0)
  from compressPublicKey_uncompressed [OF l1 [unfolded k1_def]]
       compressPublicKey_uncompressed [OF l2 [unfolded k2_def]]
       l1 l2 c1 c2
  show ?thesis
    by (simp add: Let_def k1_def k2_def)
qed

section \<open>Properties of module transactions\<close>

subsection \<open>The loop over the inputs\<close>

lemma signInputs_append:
  "signInputs c net inputs outputs rows (xs @ ys) tx =
     (case signInputs c net inputs outputs rows xs tx of
        Inl e \<Rightarrow> Inl e
      | Inr tx' \<Rightarrow> signInputs c net inputs outputs rows ys tx')"
  by (induction xs arbitrary: tx) (auto split: sum.splits)

lemma upt_split: "i < n \<Longrightarrow> [0..<n] = [0..<i] @ i # [Suc i..<n]"
  by (metis le_add1 less_imp_add_positive upt_add_eq_append upt_conv_Cons zero_le)

lemma checkRows_None_iff:
  "checkRows n k rows = None \<longleftrightarrow> (\<forall>row\<in>set rows. n \<le> length row)"
  by (induction rows arbitrary: k) auto

lemma signInput_insufficient:
  assumes "length (inputSignatures rows i) < multisigRequiredSigners (input_multisig (inputs ! i))"
  shows "signInput c net inputs outputs rows i tx =
           Inl (''Insufficient signatures for input  '' @ string_of_nat (i + 1)
                  @ '': require ''
                  @ string_of_nat (multisigRequiredSigners (input_multisig (inputs ! i)))
                  @ '',  received '' @ string_of_nat (length (inputSignatures rows i)) @ ''.'')"
  using assms by (simp add: signInput_def)

lemma string_of_nat_digits:
  "string_of_nat 0 = ''0''" "string_of_nat 1 = ''1''" "string_of_nat (Suc 0) = ''1''"
  "string_of_nat 2 = ''2''" "string_of_nat (Suc (Suc 0)) = ''2''" "string_of_nat 3 = ''3''"
  by (simp_all add: string_of_nat.simps)

lemmas tx_sample_defs =
  sample_tx_libs_def sample_input_def sample_multisig_def sample_outputs_def sample_resolve_def

lemmas tx_defs =
  signedMultisigTransaction_def unsignedMultisigTransaction_def signInput_def setUnlockingData_def
  inputSignatures_def
  at_index_def truthy_def multisigScriptSig_def multisigWitnessField_def
  setScript_def setWitness_def legacy_def get_property_def property_truthy_def keepSignature_def
  strippedSignature_def object_prototype_properties_def

lemma signInputs_fails:
  assumes "i \<in> set xs"
    and "\<And>tx. \<exists>e. signInput c net inputs outputs rows i tx = Inl e"
  shows "\<exists>e. signInputs c net inputs outputs rows xs tx = Inl e"
  using assms(1)
proof (induction xs arbitrary: tx)
  case Nil
  then show ?case by simp
next
  case (Cons x xs)
  show ?case
  proof (cases "signInput c net inputs outputs rows x tx")
    case (Inl e)
    then show ?thesis by simp
  next
    case (Inr tx')
    with assms(2) [of tx] have "x \<noteq> i" by auto
    with Cons.prems have "i \<in> set xs" by simp
    from Cons.IH [OF this, of tx'] Inr show ?thesis by simp
  qed
qed

lemma signed_fails_at:
  assumes "i < length inputs"
    and "\<And>tx. \<exists>e. signInput c net inputs outputs rows i tx = Inl e"
  shows "\<exists>e. signedMultisigTransaction c net inputs outputs rows = Inl e"
proof -
  from assms(1) have "i \<in> set [0..<length inputs]" by simp
  from signInputs_fails [OF this assms(2)] show ?thesis
    by (auto simp: signedMultisigTransaction_def split: sum.splits option.splits)
qed

lemma signed_reaches:
  assumes "unsignedMultisigTransaction c net inputs outputs = Inr utx"
    and "rows \<noteq> []" and "\<forall>row\<in>set rows. length inputs \<le> length row"
    and "i < length inputs"
    and "signInputs c net inputs outputs rows [0..<i] utx = Inr tx"
    and "signInput c net inputs outputs rows i tx = Inl e"
  shows "signedMultisigTransaction c net inputs outputs rows = Inl e"
proof -
  have "checkRows (length inputs) 0 rows = None"
    using assms(3) by (simp add: checkRows_None_iff)
  then show ?thesis
    using assms by (simp add: signedMultisigTransaction_def upt_split [OF assms(4)] signInputs_append)
qed


text \<open>
  C8, as the code has it. When an input has fewer truthy signatures in its column than its
  descriptor requires, the call returns no transaction. The inputs are merged in order
  and the first failure ends the call, so the error is the one of this input, with its
  index from 1 and the two counts, when the checks before the loop pass and the inputs
  before it are merged.
\<close>

theorem insufficient_signatures_fail:
  assumes "i < length inputs"
    and "length (inputSignatures rows i) < multisigRequiredSigners (input_multisig (inputs ! i))"
  shows "(\<exists>e. signedMultisigTransaction c net inputs outputs rows = Inl e)
     \<and> (\<forall>utx tx. unsignedMultisigTransaction c net inputs outputs = Inr utx
            \<and> rows \<noteq> [] \<and> (\<forall>row\<in>set rows. length inputs \<le> length row)
            \<and> signInputs c net inputs outputs rows [0..<i] utx = Inr tx
          \<longrightarrow> signedMultisigTransaction c net inputs outputs rows =
                Inl (''Insufficient signatures for input  '' @ string_of_nat (i + 1)
                       @ '': require ''
                       @ string_of_nat (multisigRequiredSigners (input_multisig (inputs ! i)))
                       @ '',  received '' @ string_of_nat (length (inputSignatures rows i)) @ ''.''))"
proof -
  note fail = signInput_insufficient [OF assms(2), of c net outputs]
  have "\<exists>e. signedMultisigTransaction c net inputs outputs rows = Inl e"
    by (rule signed_fails_at [OF assms(1)]) (simp add: fail)
  moreover have "signedMultisigTransaction c net inputs outputs rows =
                Inl (''Insufficient signatures for input  '' @ string_of_nat (i + 1)
                       @ '': require ''
                       @ string_of_nat (multisigRequiredSigners (input_multisig (inputs ! i)))
                       @ '',  received '' @ string_of_nat (length (inputSignatures rows i)) @ ''.'')"
    if "unsignedMultisigTransaction c net inputs outputs = Inr utx"
      and "rows \<noteq> []" and "\<forall>row\<in>set rows. length inputs \<le> length row"
      and "signInputs c net inputs outputs rows [0..<i] utx = Inr tx" for utx tx
    by (rule signed_reaches [OF that(1) that(2) that(3) assms(1) that(4) fail])
  ultimately show ?thesis by blast
qed

theorem insufficient_signatures_fail_witness:
  "length (inputSignatures [[Some ''3044cc'', None], [Some ''3044aa'', Some '''']] 1)
     < multisigRequiredSigners (input_multisig ([sample_input 0, sample_input 1] ! 1))
   \<and> signedMultisigTransaction sample_tx_libs TESTNET [sample_input 0, sample_input 1] sample_outputs
        [[Some ''3044cc'', None], [Some ''3044aa'', Some '''']]
      = Inl ''Insufficient signatures for input  2: require 2,  received 0.''"
proof -
  define rows where "rows = [[Some ''3044cc'', None], [Some ''3044aa'', Some '''']]"
  define inputs where "inputs = [sample_input 0, sample_input 1]"
  define utx where "utx = \<lparr>tx_version = 1,
      ins = [\<lparr>in_hash = ''ae'', in_index = 0, in_script = [], in_witness = []\<rparr>,
             \<lparr>in_hash = ''ae'', in_index = 1, in_script = [], in_witness = []\<rparr>],
      outs = [(map of_char ''2N'', 90000)]\<rparr>"
  have i: "1 < length inputs"
    by (simp add: inputs_def)
  have few: "length (inputSignatures rows 1) < multisigRequiredSigners (input_multisig (inputs ! 1))"
    by (simp add: rows_def inputs_def inputSignatures_def at_index_def truthy_def tx_sample_defs)
  have u: "unsignedMultisigTransaction sample_tx_libs TESTNET inputs sample_outputs = Inr utx"
    by (simp add: unsignedMultisigTransaction_def inputs_def utx_def tx_sample_defs)
  have r: "rows \<noteq> [] \<and> (\<forall>row\<in>set rows. length inputs \<le> length row)"
    by (simp add: rows_def inputs_def)
  have "\<exists>tx. signInputs sample_tx_libs TESTNET inputs sample_outputs rows [0..<1] utx = Inr tx"
    by (simp add: rows_def inputs_def utx_def tx_defs tx_sample_defs)
  then obtain tx where tx: "signInputs sample_tx_libs TESTNET inputs sample_outputs rows [0..<1] utx = Inr tx"
    by blast
  from insufficient_signatures_fail [OF i few, of sample_tx_libs TESTNET sample_outputs] u r tx
  have "signedMultisigTransaction sample_tx_libs TESTNET inputs sample_outputs rows =
          Inl (''Insufficient signatures for input  '' @ string_of_nat (1 + 1)
                 @ '': require '' @ string_of_nat (multisigRequiredSigners (input_multisig (inputs ! 1)))
                 @ '',  received '' @ string_of_nat (length (inputSignatures rows 1)) @ ''.'')"
    by blast
  moreover have "multisigRequiredSigners (input_multisig (inputs ! 1)) = 2"
    and "length (inputSignatures rows 1) = 0"
    by (simp_all add: rows_def inputs_def inputSignatures_def at_index_def truthy_def tx_sample_defs)
  ultimately show ?thesis
    using few by (simp add: rows_def inputs_def string_of_nat_digits)
qed

text \<open>
  The claim as stated fails for an input behind another one that fails: with two inputs
  that both lack a signature, the error names the first, not the second.
\<close>

theorem insufficient_signatures_second_input:
  "length (inputSignatures [[Some ''3044aa'', Some ''3044aa'']] 1)
     < multisigRequiredSigners (input_multisig ([sample_input 0, sample_input 1] ! 1))
   \<and> signedMultisigTransaction sample_tx_libs TESTNET [sample_input 0, sample_input 1] sample_outputs
        [[Some ''3044aa'', Some ''3044aa'']]
      = Inl ''Insufficient signatures for input  1: require 2,  received 1.''
   \<and> signedMultisigTransaction sample_tx_libs TESTNET [sample_input 0, sample_input 1] sample_outputs
        [[Some ''3044aa'', Some ''3044aa'']]
      \<noteq> Inl ''Insufficient signatures for input  2: require 2,  received 1.''"
  by (simp add: tx_defs tx_sample_defs upt_rec string_of_nat_digits)

subsection \<open>The dictionary of signatures by public key\<close>

lemma inputSignatures_nonempty: "s \<in> set (inputSignatures rows i) \<Longrightarrow> s \<noteq> ''''"
  by (auto simp: inputSignatures_def truthy_def split: option.splits)

text \<open>A public key is none of the names that an object inherits.\<close>

lemma public_key_not_inherited:
  assumes "public_key k"
  shows "k \<notin> set object_prototype_properties"
proof
  assume "k \<in> set object_prototype_properties"
  then have "CHR ''o'' \<in> set k \<or> CHR ''_'' \<in> set k \<or> CHR ''i'' \<in> set k \<or> CHR ''l'' \<in> set k"
    by (auto simp: object_prototype_properties_def)
  with assms show False
    by (auto simp: public_key_def hex_digit_def)
qed

lemma property_truthy_own:
  "k \<notin> set object_prototype_properties \<Longrightarrow> property_truthy (get_property m k) = truthy (m k)"
  by (simp add: get_property_def property_truthy_def truthy_def split: option.splits)

lemma property_truthy_written:
  "s \<noteq> '''' \<Longrightarrow> property_truthy (get_property (m(k \<mapsto> s)) k)"
  by (simp add: get_property_def property_truthy_def)

lemma get_property_other:
  "k' \<noteq> k \<Longrightarrow> get_property (m(k \<mapsto> s)) k' = get_property m k'"
  by (simp add: get_property_def)

text \<open>
  A signature that resolves to one of the inherited names is refused as a duplicate,
  also the first one of an input.
\<close>

lemma inherited_key_refused:
  assumes "r s = Inr (Some k)" and "k \<in> set object_prototype_properties" and "m k = None"
  shows "signaturesByPublicKey r i (s # rest) m =
           Inl (''Duplicate signature for input '' @ string_of_nat (i + 1) @ '': '' @ s)"
proof -
  from assms(2) have "k \<noteq> ''''"
    by (auto simp: object_prototype_properties_def)
  moreover from assms(2,3) have "property_truthy (get_property m k)"
    by (simp add: get_property_def property_truthy_def)
  ultimately show ?thesis
    using assms(1) by (simp add: truthy_def)
qed

lemma signaturesByPublicKey_append:
  "signaturesByPublicKey r i (xs @ ys) m =
     (case signaturesByPublicKey r i xs m of
        Inl e \<Rightarrow> Inl e
      | Inr m' \<Rightarrow> signaturesByPublicKey r i ys m')"
  by (induction xs arbitrary: m) (auto split: sum.splits option.splits)

text \<open>A key that is claimed stays claimed, so a later signature for it is refused.\<close>

lemma claimed_key_fails:
  assumes "property_truthy (get_property m pk)" and "r s2 = Inr (Some pk)"
  shows "\<exists>e. signaturesByPublicKey r i (mid @ s2 # post) m = Inl e"
  using assms(1)
proof (induction mid arbitrary: m)
  case Nil
  with assms(2) show ?case by simp
next
  case (Cons x mid)
  show ?case
  proof (cases "r x")
    case (Inl e)
    then show ?thesis by simp
  next
    case (Inr k)
    show ?thesis
    proof (cases k)
      case None
      with Inr show ?thesis by simp
    next
      case (Some key)
      show ?thesis
      proof (cases "truthy k \<and> \<not> property_truthy (get_property m key)")
        case False
        with Inr Some show ?thesis by auto
      next
        case True
        with Cons.prems have "pk \<noteq> key" by auto
        with Cons.prems have claimed: "property_truthy (get_property (m(key \<mapsto> x)) pk)"
          by (simp add: get_property_other)
        have step: "signaturesByPublicKey r i ((x # mid) @ s2 # post) m
                      = signaturesByPublicKey r i (mid @ s2 # post) (m(key \<mapsto> x))"
          using Inr Some True by simp
        have "\<exists>e. signaturesByPublicKey r i (mid @ s2 # post) (m(key \<mapsto> x)) = Inl e"
          by (rule Cons.IH) (rule claimed)
        then show ?thesis by (simp only: step)
      qed
    qed
  qed
qed

lemma duplicate_key_fails:
  assumes "s1 \<noteq> ''''" and "r s1 = Inr (Some pk)" and "r s2 = Inr (Some pk)"
  shows "\<exists>e. signaturesByPublicKey r i (pre @ s1 # mid @ s2 # post) m = Inl e"
proof (cases "signaturesByPublicKey r i pre m")
  case (Inl e)
  then show ?thesis by (simp add: signaturesByPublicKey_append)
next
  case (Inr m')
  show ?thesis
  proof (cases "truthy (Some pk) \<and> \<not> property_truthy (get_property m' pk)")
    case False
    with Inr assms(2) show ?thesis
      by (auto simp: signaturesByPublicKey_append)
  next
    case True
    from assms(1) have "property_truthy (get_property (m'(pk \<mapsto> s1)) pk)"
      by (rule property_truthy_written)
    with claimed_key_fails [of "m'(pk \<mapsto> s1)" pk r s2 i mid post] assms(3)
    obtain e where "signaturesByPublicKey r i (mid @ s2 # post) (m'(pk \<mapsto> s1)) = Inl e"
      by blast
    with Inr assms(2) True show ?thesis
      by (simp add: signaturesByPublicKey_append)
  qed
qed

text \<open>Valid, distinct signatures fill the dictionary: each key gets the signature that resolves to it.\<close>

lemma valid_signatures_Cons:
  "valid_signatures r (s # ss) \<longleftrightarrow>
     (\<exists>k. r s = Inr (Some k) \<and> public_key k) \<and> r s \<notin> r ` set ss \<and> valid_signatures r ss"
  by (auto simp: valid_signatures_def split: sum.splits option.splits)

lemma signaturesByPublicKey_valid:
  assumes "valid_signatures r ss"
    and "\<forall>s\<in>set ss. \<forall>k. r s = Inr (Some k) \<longrightarrow> \<not> truthy (m k)"
  shows "signaturesByPublicKey r i ss m =
           Inr (\<lambda>k. case find (\<lambda>s. r s = Inr (Some k)) ss of Some s \<Rightarrow> Some s | None \<Rightarrow> m k)"
  using assms
proof (induction ss arbitrary: m)
  case Nil
  then show ?case by simp
next
  case (Cons s ss)
  from Cons.prems(1) obtain k where k: "r s = Inr (Some k)" "public_key k"
    and fresh: "r s \<notin> r ` set ss" and rest: "valid_signatures r ss"
    by (auto simp: valid_signatures_Cons)
  from k(2) have plain: "k \<noteq> ''''" "k \<notin> set object_prototype_properties"
    by (simp_all add: public_key_not_inherited) (simp add: public_key_def)
  from Cons.prems(2) k have "\<not> truthy (m k)" by simp
  with plain(2) have unclaimed: "\<not> property_truthy (get_property m k)"
    by (simp add: property_truthy_own)
  have later: "\<forall>s'\<in>set ss. \<forall>k'. r s' = Inr (Some k') \<longrightarrow> \<not> truthy ((m(k \<mapsto> s)) k')"
  proof (intro ballI allI impI)
    fix s' k' assume s': "s' \<in> set ss" and k': "r s' = Inr (Some k')"
    with fresh k have "k' \<noteq> k" by force
    with Cons.prems(2) s' k' show "\<not> truthy ((m(k \<mapsto> s)) k')" by simp
  qed
  have none: "find (\<lambda>s'. r s' = Inr (Some k)) ss = None"
    using fresh k by (force simp: find_None_iff)
  have eq: "(\<lambda>k'. case find (\<lambda>s'. r s' = Inr (Some k')) ss of Some s' \<Rightarrow> Some s' | None \<Rightarrow> (m(k \<mapsto> s)) k')
      = (\<lambda>k'. case find (\<lambda>s'. r s' = Inr (Some k')) (s # ss) of Some s' \<Rightarrow> Some s' | None \<Rightarrow> m k')"
    using k none by (auto simp: fun_eq_iff split: option.splits)
  have step: "signaturesByPublicKey r i (s # ss) m = signaturesByPublicKey r i ss (m(k \<mapsto> s))"
    using k(1) plain(1) unclaimed by (simp add: truthy_def)
  show ?case
    by (simp only: step Cons.IH [OF rest later] eq)
qed


lemma find_Some_mem: "find P xs = Some x \<Longrightarrow> x \<in> set xs"
  by (induction xs) (auto split: if_splits)

lemma signInput_duplicate_fails:
  assumes "inputSignatures rows i = pre @ s1 # mid @ s2 # post"
    and "validateMultisigSignature c net inputs outputs i s1 = Inr (Some pk)"
    and "validateMultisigSignature c net inputs outputs i s2 = Inr (Some pk)"
  shows "\<exists>e. signInput c net inputs outputs rows i tx = Inl e"
proof -
  have "s1 \<in> set (inputSignatures rows i)"
    by (simp add: assms(1))
  then have "s1 \<noteq> ''''"
    by (rule inputSignatures_nonempty)
  from duplicate_key_fails [OF this assms(2) assms(3), of i pre mid post Map.empty]
  obtain e where "signaturesByPublicKey (validateMultisigSignature c net inputs outputs i) i
                    (inputSignatures rows i) Map.empty = Inl e"
    by (auto simp: assms(1))
  then show ?thesis
    by (simp add: signInput_def Let_def)
qed

lemma signInput_first_duplicate:
  assumes cs: "inputSignatures rows i = pre @ s1 # mid @ s2 # post"
    and s1: "validateMultisigSignature c net inputs outputs i s1 = Inr (Some pk)"
    and s2: "validateMultisigSignature c net inputs outputs i s2 = Inr (Some pk)"
    and enough: "multisigRequiredSigners (input_multisig (inputs ! i)) \<le> length (inputSignatures rows i)"
    and valid: "valid_signatures (validateMultisigSignature c net inputs outputs i) (pre @ s1 # mid)"
  shows "signInput c net inputs outputs rows i tx =
           Inl (''Duplicate signature for input '' @ string_of_nat (i + 1) @ '': '' @ s2)"
proof -
  define r where "r = validateMultisigSignature c net inputs outputs i"
  define M where "M = (\<lambda>k. case find (\<lambda>s. r s = Inr (Some k)) (pre @ s1 # mid) of
                              Some s \<Rightarrow> Some s | None \<Rightarrow> (Map.empty :: string \<rightharpoonup> string) k)"
  have filled: "signaturesByPublicKey r i (pre @ s1 # mid) Map.empty = Inr M"
    unfolding M_def
    by (rule signaturesByPublicKey_valid) (use valid in \<open>simp_all add: r_def truthy_def\<close>)
  have "find (\<lambda>s. r s = Inr (Some pk)) (pre @ s1 # mid) \<noteq> None"
    using s1 by (auto simp: find_None_iff r_def)
  then obtain s' where s': "find (\<lambda>s. r s = Inr (Some pk)) (pre @ s1 # mid) = Some s'"
    by auto
  then have "s' \<in> set (pre @ s1 # mid)"
    by (rule find_Some_mem)
  then have "s' \<in> set (inputSignatures rows i)"
    by (auto simp: cs)
  then have "s' \<noteq> ''''"
    by (rule inputSignatures_nonempty)
  with s' have claimed: "property_truthy (get_property M pk)"
    by (simp add: M_def get_property_def property_truthy_def)
  have "pk \<noteq> ''''"
    using valid s1 by (auto simp: valid_signatures_def public_key_def)
  with claimed s2 have "signaturesByPublicKey r i (s2 # post) M =
           Inl (''Duplicate signature for input '' @ string_of_nat (i + 1) @ '': '' @ s2)"
    by (simp add: r_def truthy_def)
  with filled have "signaturesByPublicKey r i ((pre @ s1 # mid) @ s2 # post) Map.empty =
           Inl (''Duplicate signature for input '' @ string_of_nat (i + 1) @ '': '' @ s2)"
    by (simp only: signaturesByPublicKey_append sum.case)
  then show ?thesis
    using enough by (simp add: signInput_def Let_def cs r_def)
qed

lemma signInput_inherited_key:
  assumes "inputSignatures rows i = s # rest"
    and "multisigRequiredSigners (input_multisig (inputs ! i)) \<le> length (inputSignatures rows i)"
    and "validateMultisigSignature c net inputs outputs i s = Inr (Some k)"
    and "k \<in> set object_prototype_properties"
  shows "signInput c net inputs outputs rows i tx =
           Inl (''Duplicate signature for input '' @ string_of_nat (i + 1) @ '': '' @ s)"
proof -
  have "signaturesByPublicKey (validateMultisigSignature c net inputs outputs i) i (s # rest) Map.empty
          = Inl (''Duplicate signature for input '' @ string_of_nat (i + 1) @ '': '' @ s)"
    by (rule inherited_key_refused [where r = "validateMultisigSignature c net inputs outputs i" and k = k])
       (simp_all add: assms(3) assms(4))
  with assms(2) show ?thesis
    by (simp add: signInput_def Let_def assms(1))
qed

text \<open>
  C9, as the code has it. When two signatures collected for an input resolve to the same
  public key of the descriptor, the call returns no transaction. The error is the
  duplicate-signature error of this input and of the later of the two signatures when
  the checks before the loop pass, the inputs before it are merged, the input has enough
  signatures, and the signatures in front of the later one are valid and distinct: an
  earlier failure is reported instead.
\<close>

theorem duplicate_signature_fails:
  assumes "i < length inputs"
    and "inputSignatures rows i = pre @ s1 # mid @ s2 # post"
    and "validateMultisigSignature c net inputs outputs i s1 = Inr (Some pk)"
    and "validateMultisigSignature c net inputs outputs i s2 = Inr (Some pk)"
    and "pk \<in> set (multisigPublicKeys (input_multisig (inputs ! i)))"
  shows "(\<exists>e. signedMultisigTransaction c net inputs outputs rows = Inl e)
     \<and> (\<forall>utx tx. unsignedMultisigTransaction c net inputs outputs = Inr utx
            \<and> rows \<noteq> [] \<and> (\<forall>row\<in>set rows. length inputs \<le> length row)
            \<and> signInputs c net inputs outputs rows [0..<i] utx = Inr tx
            \<and> multisigRequiredSigners (input_multisig (inputs ! i)) \<le> length (inputSignatures rows i)
            \<and> valid_signatures (validateMultisigSignature c net inputs outputs i) (pre @ s1 # mid)
          \<longrightarrow> signedMultisigTransaction c net inputs outputs rows =
                Inl (''Duplicate signature for input '' @ string_of_nat (i + 1) @ '': '' @ s2))"
proof -
  have "\<exists>e. signedMultisigTransaction c net inputs outputs rows = Inl e"
    by (rule signed_fails_at [OF assms(1)])
       (rule signInput_duplicate_fails [OF assms(2) assms(3) assms(4)])
  moreover have "signedMultisigTransaction c net inputs outputs rows =
                Inl (''Duplicate signature for input '' @ string_of_nat (i + 1) @ '': '' @ s2)"
    if "unsignedMultisigTransaction c net inputs outputs = Inr utx"
      and "rows \<noteq> []" and "\<forall>row\<in>set rows. length inputs \<le> length row"
      and "signInputs c net inputs outputs rows [0..<i] utx = Inr tx"
      and "multisigRequiredSigners (input_multisig (inputs ! i)) \<le> length (inputSignatures rows i)"
      and "valid_signatures (validateMultisigSignature c net inputs outputs i) (pre @ s1 # mid)"
    for utx tx
    by (rule signed_reaches [OF that(1) that(2) that(3) assms(1) that(4)])
       (rule signInput_first_duplicate [OF assms(2) assms(3) assms(4) that(5) that(6)])
  ultimately show ?thesis by blast
qed

theorem duplicate_signature_fails_witness:
  "inputSignatures [[Some ''3044aa''], [Some ''3044bb''], [Some ''3045aa'']] 0
     = [] @ ''3044aa'' # [''3044bb''] @ ''3045aa'' # []
   \<and> validateMultisigSignature sample_tx_libs TESTNET [sample_input 0] sample_outputs 0 ''3044aa''
       = Inr (Some ''02aa'')
   \<and> validateMultisigSignature sample_tx_libs TESTNET [sample_input 0] sample_outputs 0 ''3045aa''
       = Inr (Some ''02aa'')
   \<and> ''02aa'' \<in> set (multisigPublicKeys (input_multisig ([sample_input 0] ! 0)))
   \<and> signedMultisigTransaction sample_tx_libs TESTNET [sample_input 0] sample_outputs
        [[Some ''3044aa''], [Some ''3044bb''], [Some ''3045aa'']]
      = Inl ''Duplicate signature for input 1: 3045aa''"
proof -
  define rows where "rows = [[Some ''3044aa''], [Some ''3044bb''], [Some ''3045aa'']]"
  define inputs where "inputs = [sample_input 0]"
  define utx where "utx = \<lparr>tx_version = 1,
      ins = [\<lparr>in_hash = ''ae'', in_index = 0, in_script = [], in_witness = []\<rparr>],
      outs = [(map of_char ''2N'', 90000)]\<rparr>"
  have i: "0 < length inputs"
    by (simp add: inputs_def)
  have cs: "inputSignatures rows 0 = [] @ ''3044aa'' # [''3044bb''] @ ''3045aa'' # []"
    by (simp add: rows_def inputSignatures_def at_index_def truthy_def)
  have s1: "validateMultisigSignature sample_tx_libs TESTNET inputs sample_outputs 0 ''3044aa''
              = Inr (Some ''02aa'')"
    and s2: "validateMultisigSignature sample_tx_libs TESTNET inputs sample_outputs 0 ''3045aa''
              = Inr (Some ''02aa'')"
    by (simp_all add: sample_tx_libs_def sample_resolve_def)
  have pk: "''02aa'' \<in> set (multisigPublicKeys (input_multisig (inputs ! 0)))"
    by (simp add: inputs_def sample_input_def sample_multisig_def)
  have u: "unsignedMultisigTransaction sample_tx_libs TESTNET inputs sample_outputs = Inr utx"
    by (simp add: unsignedMultisigTransaction_def inputs_def utx_def tx_sample_defs)
  have r: "rows \<noteq> [] \<and> (\<forall>row\<in>set rows. length inputs \<le> length row)"
    by (simp add: rows_def inputs_def)
  have tx: "signInputs sample_tx_libs TESTNET inputs sample_outputs rows [0..<0] utx = Inr utx"
    by simp
  have enough: "multisigRequiredSigners (input_multisig (inputs ! 0)) \<le> length (inputSignatures rows 0)"
    by (simp add: cs) (simp add: inputs_def tx_sample_defs)
  have valid: "valid_signatures (validateMultisigSignature sample_tx_libs TESTNET inputs sample_outputs 0)
                 ([] @ ''3044aa'' # [''3044bb''])"
    by (simp add: valid_signatures_def sample_tx_libs_def sample_resolve_def public_key_def
        hex_digit_def)
  from duplicate_signature_fails [OF i cs s1 s2 pk] u r tx enough valid
  have "signedMultisigTransaction sample_tx_libs TESTNET inputs sample_outputs rows =
          Inl (''Duplicate signature for input '' @ string_of_nat (0 + 1) @ '': '' @ ''3045aa'')"
    by blast
  with cs s1 s2 pk show ?thesis
    by (simp add: rows_def inputs_def string_of_nat_digits)
qed

text \<open>
  The claim as stated fails when another signature of the input is refused first: here
  the first signature resolves to no key, and the error is the one of an invalid
  signature.
\<close>

theorem duplicate_behind_invalid_signature:
  "inputSignatures [[Some ''zz''], [Some ''3044aa''], [Some ''3045aa'']] 0
     = [''zz'', ''3044aa'', ''3045aa'']
   \<and> validateMultisigSignature sample_tx_libs TESTNET [sample_input 0] sample_outputs 0 ''3044aa''
       = Inr (Some ''02aa'')
   \<and> validateMultisigSignature sample_tx_libs TESTNET [sample_input 0] sample_outputs 0 ''3045aa''
       = Inr (Some ''02aa'')
   \<and> ''02aa'' \<in> set (multisigPublicKeys (input_multisig ([sample_input 0] ! 0)))
   \<and> signedMultisigTransaction sample_tx_libs TESTNET [sample_input 0] sample_outputs
        [[Some ''zz''], [Some ''3044aa''], [Some ''3045aa'']]
      = Inl ''Invalid signature for input 1: zz''"
  by (simp add: tx_defs tx_sample_defs upt_rec string_of_nat_digits)

subsection \<open>The order of the signatures\<close>

lemma filter_find_distinct:
  "distinct (map f xs) \<Longrightarrow>
   filter (\<lambda>s. f s = v) xs = (case find (\<lambda>s. f s = v) xs of None \<Rightarrow> [] | Some s \<Rightarrow> [s])"
proof (induction xs)
  case Nil
  show ?case by simp
next
  case (Cons x xs)
  show ?case
  proof (cases "f x = v")
    case True
    with Cons.prems have "v \<notin> f ` set xs" by simp
    then have "\<forall>s\<in>set xs. f s \<noteq> v" by blast
    then have "filter (\<lambda>s. f s = v) xs = []" by (simp add: filter_empty_conv)
    with True show ?thesis by simp
  next
    case False
    with Cons show ?thesis by simp
  qed
qed

lemma concat_map_filter_map:
  "concat (map g (filter p (map f xs))) = concat (map (\<lambda>x. if p (f x) then g (f x) else []) xs)"
  by (induction xs) simp_all

lemma key_ordered_Cons:
  "key_ordered r strip (pk # rest) sigs =
     filter (\<lambda>s. r s = Inr (Some pk) \<and> strip s \<noteq> '''') sigs @ key_ordered r strip rest sigs"
  by (simp add: key_ordered_def)

text \<open>
  With public keys in the descriptor, the projection of the filled dictionary is the
  list of the signatures in the order of the keys, all of them entries of its own.
\<close>

lemma sortedSignatures_filled:
  assumes "distinct (map r sigs)" and "\<forall>s\<in>set sigs. s \<noteq> ''''"
    and "\<forall>k\<in>set publicKeys. public_key k"
  shows "sortedSignatures c publicKeys
           (\<lambda>k. case find (\<lambda>s. r s = Inr (Some k)) sigs of Some s \<Rightarrow> Some s | None \<Rightarrow> None)
         = Inr (map Own (key_ordered r (signatureNoSighashType c) publicKeys sigs))"
  using assms(3)
proof (induction publicKeys)
  case Nil
  show ?case by (simp add: key_ordered_def)
next
  case (Cons pk rest)
  let ?M = "\<lambda>k. case find (\<lambda>s. r s = Inr (Some k)) sigs of Some s \<Rightarrow> Some s | None \<Rightarrow> None"
  from Cons.prems have "public_key pk" and keys: "\<forall>k\<in>set rest. public_key k"
    by simp_all
  then have own: "pk \<notin> set object_prototype_properties"
    by (simp add: public_key_not_inherited)
  have ih: "sortedSignatures c rest ?M
              = Inr (map Own (key_ordered r (signatureNoSighashType c) rest sigs))"
    by (rule Cons.IH [OF keys])
  have split: "filter (\<lambda>s. r s = Inr (Some pk) \<and> signatureNoSighashType c s \<noteq> '''') sigs
           = filter (\<lambda>s. signatureNoSighashType c s \<noteq> '''') (filter (\<lambda>s. r s = Inr (Some pk)) sigs)"
    by (simp add: conj_commute)
  show ?case
  proof (cases "find (\<lambda>s. r s = Inr (Some pk)) sigs")
    case None
    with own have "get_property ?M pk = None"
      by (simp add: get_property_def)
    with None show ?thesis
      by (simp add: ih key_ordered_Cons split filter_find_distinct [OF assms(1)])
  next
    case (Some s)
    then have "s \<in> set sigs" by (rule find_Some_mem)
    with assms(2) have "s \<noteq> ''''" by simp
    moreover from Some have "get_property ?M pk = Some (Own s)"
      by (simp add: get_property_def)
    ultimately show ?thesis
      using Some
      by (simp add: ih key_ordered_Cons split filter_find_distinct [OF assms(1)] keepSignature_def)
  qed
qed

text \<open>On entries of its own, the unlocking data is made of the stripped signatures.\<close>

lemma mapThrowing_own:
  "mapThrowing (strippedSignature c) (map Own sigs) = Inr (map (signatureNoSighashType c) sigs)"
  by (induction sigs) (simp_all add: strippedSignature_def)

lemma multisigScriptSig_own:
  "multisigScriptSig c m (map Own sigs)
     = script_of_asm c m (signature_pushes (signatureNoSighashType c) sigs)"
  by (simp add: multisigScriptSig_def script_of_asm_def signature_pushes_def mapThrowing_own
      comp_def)

lemma multisigWitnessField_own:
  "\<exists>w. multisigWitnessField c m (map Own sigs) = Inr w"
  by (simp add: multisigWitnessField_def mapThrowing_own)

lemma short_lists_by_mset:
  assumes "mset xs = mset ys" and "length xs \<le> 1"
  shows "xs = ys"
proof -
  from assms(1) have "length ys = length xs" by (metis size_mset)
  with assms show ?thesis
    by (cases xs; cases ys) auto
qed

lemma key_ordered_permuted:
  assumes "mset sigs' = mset sigs" and "distinct (map r sigs)"
  shows "key_ordered r strip publicKeys sigs' = key_ordered r strip publicKeys sigs"
proof -
  have "filter (\<lambda>s. r s = Inr (Some pk) \<and> strip s \<noteq> '''') sigs'
      = filter (\<lambda>s. r s = Inr (Some pk) \<and> strip s \<noteq> '''') sigs" for pk
  proof (rule short_lists_by_mset [symmetric])
    show "mset (filter (\<lambda>s. r s = Inr (Some pk) \<and> strip s \<noteq> '''') sigs)
        = mset (filter (\<lambda>s. r s = Inr (Some pk) \<and> strip s \<noteq> '''') sigs')"
      by (simp add: assms(1))
    have "filter (\<lambda>s. r s = Inr (Some pk) \<and> strip s \<noteq> '''') sigs
            = filter (\<lambda>s. strip s \<noteq> '''') (filter (\<lambda>s. r s = Inr (Some pk)) sigs)"
      by (simp add: conj_commute)
    also have "length \<dots> \<le> length (filter (\<lambda>s. r s = Inr (Some pk)) sigs)"
      by (rule length_filter_le)
    also have "\<dots> \<le> 1"
      by (simp add: filter_find_distinct [OF assms(2)] split: option.splits)
    finally show "length (filter (\<lambda>s. r s = Inr (Some pk) \<and> strip s \<noteq> '''') sigs) \<le> 1" .
  qed
  then show ?thesis
    by (simp add: key_ordered_def)
qed

lemma inputSignatures_concat:
  "inputSignatures rows i =
     concat (map (\<lambda>row. if truthy (at_index row i)
                          then (case at_index row i of None \<Rightarrow> [] | Some s \<Rightarrow> [s]) else []) rows)"
  by (simp add: inputSignatures_def concat_map_filter_map)

lemma mset_concat_map: "mset (concat (map h xs)) = (\<Sum>x\<in>#mset xs. mset (h x))"
  by (induction xs) simp_all

lemma inputSignatures_permuted:
  "mset rows' = mset rows \<Longrightarrow> mset (inputSignatures rows' i) = mset (inputSignatures rows i)"
  by (simp add: inputSignatures_concat mset_concat_map)

lemma valid_signatures_permuted:
  assumes "mset sigs' = mset sigs" and "valid_signatures r sigs"
  shows "valid_signatures r sigs'"
proof -
  from assms(1) have "set sigs' = set sigs" by (rule mset_eq_setD)
  moreover from assms(1) have "mset (map r sigs') = mset (map r sigs)" by simp
  then have "distinct (map r sigs') \<longleftrightarrow> distinct (map r sigs)" by (rule mset_eq_imp_distinct_iff)
  ultimately show ?thesis
    using assms(2) by (simp add: valid_signatures_def)
qed



subsection \<open>An input that is ready\<close>

lemma signInput_ready:
  assumes "input_ready c net inputs outputs rows i"
  shows "signInput c net inputs outputs rows i tx =
           setUnlockingData c (input_multisig (inputs ! i))
             (map Own
                (key_ordered (validateMultisigSignature c net inputs outputs i) (signatureNoSighashType c)
                   (multisigPublicKeys (input_multisig (inputs ! i))) (inputSignatures rows i)))
             i tx"
proof -
  define r where "r = validateMultisigSignature c net inputs outputs i"
  define sigs where "sigs = inputSignatures rows i"
  from assms have enough: "multisigRequiredSigners (input_multisig (inputs ! i)) \<le> length sigs"
    and valid: "valid_signatures r sigs"
    and keys: "\<forall>k\<in>set (multisigPublicKeys (input_multisig (inputs ! i))). public_key k"
    by (simp_all add: input_ready_def Let_def r_def sigs_def)
  have nonempty: "\<forall>s\<in>set sigs. s \<noteq> ''''"
    by (auto simp: sigs_def dest: inputSignatures_nonempty)
  have filled: "signaturesByPublicKey r i sigs Map.empty =
          Inr (\<lambda>k. case find (\<lambda>s. r s = Inr (Some k)) sigs of Some s \<Rightarrow> Some s | None \<Rightarrow> None)"
    by (rule signaturesByPublicKey_valid [OF valid]) (simp add: truthy_def)
  from valid have "distinct (map r sigs)"
    by (simp add: valid_signatures_def)
  then have ordered: "sortedSignatures c (multisigPublicKeys (input_multisig (inputs ! i)))
          (\<lambda>k. case find (\<lambda>s. r s = Inr (Some k)) sigs of Some s \<Rightarrow> Some s | None \<Rightarrow> None)
        = Inr (map Own (key_ordered r (signatureNoSighashType c)
                 (multisigPublicKeys (input_multisig (inputs ! i))) sigs))"
    using nonempty keys by (rule sortedSignatures_filled)
  show ?thesis
    using enough
    by (simp add: signInput_def Let_def r_def [symmetric] sigs_def [symmetric] filled ordered)
qed

lemma input_ready_permuted:
  assumes "mset rows' = mset rows" and "input_ready c net inputs outputs rows i"
  shows "input_ready c net inputs outputs rows' i
     \<and> key_ordered (validateMultisigSignature c net inputs outputs i) (signatureNoSighashType c)
          (multisigPublicKeys (input_multisig (inputs ! i))) (inputSignatures rows' i)
       = key_ordered (validateMultisigSignature c net inputs outputs i) (signatureNoSighashType c)
          (multisigPublicKeys (input_multisig (inputs ! i))) (inputSignatures rows i)"
proof -
  have m: "mset (inputSignatures rows' i) = mset (inputSignatures rows i)"
    by (rule inputSignatures_permuted [OF assms(1)])
  then have len: "length (inputSignatures rows' i) = length (inputSignatures rows i)"
    by (metis size_mset)
  from assms(2) have valid: "valid_signatures (validateMultisigSignature c net inputs outputs i)
                               (inputSignatures rows i)"
    by (simp add: input_ready_def Let_def)
  then have "distinct (map (validateMultisigSignature c net inputs outputs i) (inputSignatures rows i))"
    by (simp add: valid_signatures_def)
  from key_ordered_permuted [OF m this] valid_signatures_permuted [OF m valid] len assms(2)
  show ?thesis
    by (simp add: input_ready_def Let_def)
qed

lemma signInput_permuted:
  assumes "mset rows' = mset rows" and "input_ready c net inputs outputs rows i"
  shows "signInput c net inputs outputs rows' i tx = signInput c net inputs outputs rows i tx"
  using input_ready_permuted [OF assms]
  by (simp add: signInput_ready assms(2))

lemma setScript_result:
  assumes "i < length (ins tx)"
  shows "\<exists>tx'. setScript tx i s = Inr tx' \<and> length (ins tx') = length (ins tx)
           \<and> (\<forall>j. j \<noteq> i \<longrightarrow> ins tx' ! j = ins tx ! j) \<and> in_script (ins tx' ! i) = s"
  using assms by (simp add: setScript_def)

lemma setWitness_result:
  assumes "i < length (ins tx)"
  shows "\<exists>tx'. setWitness tx i w = Inr tx' \<and> length (ins tx') = length (ins tx)
           \<and> (\<forall>j. j \<noteq> i \<longrightarrow> ins tx' ! j = ins tx ! j)"
  using assms by (simp add: setWitness_def)

lemma setUnlockingData_result:
  assumes "i < length (ins tx)"
    and "legacy m \<longrightarrow>
           (case script_of_asm c m (signature_pushes (signatureNoSighashType c) sigs) of
              Inl e \<Rightarrow> False | Inr p \<Rightarrow> True)"
  shows "\<exists>tx'. setUnlockingData c m (map Own sigs) i tx = Inr tx' \<and> length (ins tx') = length (ins tx)
           \<and> (\<forall>j. j \<noteq> i \<longrightarrow> ins tx' ! j = ins tx ! j)
           \<and> (legacy m \<longrightarrow>
                (\<exists>p. script_of_asm c m (signature_pushes (signatureNoSighashType c) sigs) = Inr p
                     \<and> in_script (ins tx' ! i) = payment_input p))"
proof (cases "legacy m")
  case True
  with assms(2) obtain p
    where p: "script_of_asm c m (signature_pushes (signatureNoSighashType c) sigs) = Inr p"
    by (auto split: sum.splits)
  from setScript_result [OF assms(1), of "payment_input p"] True p show ?thesis
    by (auto simp: setUnlockingData_def legacy_def multisigScriptSig_own)
next
  case False
  obtain w where w: "multisigWitnessField c m (map Own sigs) = Inr w"
    using multisigWitnessField_own by blast
  show ?thesis
  proof (cases "multisigAddressType m = P2WSH")
    case True
    with setWitness_result [OF assms(1), of w] False w show ?thesis
      by (auto simp: setUnlockingData_def)
  next
    case notw: False
    with False have wrapped: "multisigAddressType m = P2SH_P2WSH"
      by (simp add: legacy_def)
    from setWitness_result [OF assms(1), of w]
    obtain tx1 where tx1: "setWitness tx i w = Inr tx1"
      "length (ins tx1) = length (ins tx)" "\<forall>j. j \<noteq> i \<longrightarrow> ins tx1 ! j = ins tx ! j"
      by blast
    from tx1(2) assms(1) have "i < length (ins tx1)" by simp
    from setScript_result [OF this,
        of "word_of_nat (length (payment_output (multisigRedeemScript m))) # payment_output (multisigRedeemScript m)"]
      tx1 wrapped False w show ?thesis
      by (auto simp: setUnlockingData_def Let_def)
  qed
qed

text \<open>The loop over inputs that are ready, for the rows and for a permutation of the rows.\<close>

lemma signInputs_ready:
  assumes ready: "\<forall>i\<in>set xs. input_ready c net inputs outputs rows i"
    and perm: "mset rows' = mset rows"
    and range: "\<forall>i\<in>set xs. i < length (ins tx)" and "distinct xs"
  shows "\<exists>tx'. signInputs c net inputs outputs rows xs tx = Inr tx'
           \<and> signInputs c net inputs outputs rows' xs tx = Inr tx'
           \<and> length (ins tx') = length (ins tx)
           \<and> (\<forall>j. j \<notin> set xs \<longrightarrow> ins tx' ! j = ins tx ! j)
           \<and> (\<forall>i\<in>set xs. legacy (input_multisig (inputs ! i)) \<longrightarrow>
                 (\<exists>p. script_of_asm c (input_multisig (inputs ! i))
                         (signature_pushes (signatureNoSighashType c)
                            (key_ordered (validateMultisigSignature c net inputs outputs i)
                               (signatureNoSighashType c)
                               (multisigPublicKeys (input_multisig (inputs ! i)))
                               (inputSignatures rows i))) = Inr p
                     \<and> in_script (ins tx' ! i) = payment_input p))"
  using assms
proof (induction xs arbitrary: tx)
  case Nil
  then show ?case by simp
next
  case (Cons x xs)
  let ?m = "\<lambda>i. input_multisig (inputs ! i)"
  let ?sorted = "\<lambda>i. key_ordered (validateMultisigSignature c net inputs outputs i)
                        (signatureNoSighashType c) (multisigPublicKeys (?m i)) (inputSignatures rows i)"
  let ?script = "\<lambda>i. script_of_asm c (?m i) (signature_pushes (signatureNoSighashType c) (?sorted i))"
  from Cons.prems have rx: "input_ready c net inputs outputs rows x" and ix: "x < length (ins tx)"
    and fresh: "x \<notin> set xs"
    by simp_all
  from rx have accept: "legacy (?m x) \<longrightarrow> (case ?script x of Inl e \<Rightarrow> False | Inr p \<Rightarrow> True)"
    by (simp add: input_ready_def Let_def)
  from setUnlockingData_result [OF ix accept]
  obtain tx1 where tx1: "setUnlockingData c (?m x) (map Own (?sorted x)) x tx = Inr tx1"
    and len1: "length (ins tx1) = length (ins tx)"
    and frame1: "\<forall>j. j \<noteq> x \<longrightarrow> ins tx1 ! j = ins tx ! j"
    and script1: "legacy (?m x) \<longrightarrow>
                   (\<exists>p. ?script x = Inr p \<and> in_script (ins tx1 ! x) = payment_input p)"
    by blast
  have step: "signInput c net inputs outputs rows x tx = Inr tx1"
    by (simp add: signInput_ready [OF rx] tx1)
  have step': "signInput c net inputs outputs rows' x tx = Inr tx1"
    by (simp add: signInput_permuted [OF perm rx] step)
  have "\<forall>i\<in>set xs. input_ready c net inputs outputs rows i"
    and "\<forall>i\<in>set xs. i < length (ins tx1)" and "distinct xs"
    using Cons.prems len1 by simp_all
  from Cons.IH [OF this(1) perm this(2) this(3)]
  obtain tx' where rest: "signInputs c net inputs outputs rows xs tx1 = Inr tx'"
    and rest': "signInputs c net inputs outputs rows' xs tx1 = Inr tx'"
    and len': "length (ins tx') = length (ins tx1)"
    and frame': "\<forall>j. j \<notin> set xs \<longrightarrow> ins tx' ! j = ins tx1 ! j"
    and scripts': "\<forall>i\<in>set xs. legacy (?m i) \<longrightarrow>
                     (\<exists>p. ?script i = Inr p \<and> in_script (ins tx' ! i) = payment_input p)"
    by blast
  from frame' fresh have keep: "ins tx' ! x = ins tx1 ! x" by simp
  have "signInputs c net inputs outputs rows (x # xs) tx = Inr tx'"
    and "signInputs c net inputs outputs rows' (x # xs) tx = Inr tx'"
    by (simp_all add: step step' rest rest')
  moreover have "length (ins tx') = length (ins tx)"
    by (simp add: len' len1)
  moreover have "\<forall>j. j \<notin> set (x # xs) \<longrightarrow> ins tx' ! j = ins tx ! j"
    using frame' frame1 by simp
  moreover have "\<forall>i\<in>set (x # xs). legacy (?m i) \<longrightarrow>
                     (\<exists>p. ?script i = Inr p \<and> in_script (ins tx' ! i) = payment_input p)"
    using scripts' script1 keep by simp
  ultimately show ?case by blast
qed

text \<open>
  C1. Let the inputs and outputs be valid, the transaction the builder returns have one
  input per supplied input, the matrix have a row and every row an entry per input, and
  every input be ready: the public keys of its descriptor are public keys, its column
  holds at least the required number of signatures, valid and distinct, and the script
  collaborators accept the legacy input script. Then the call returns a transaction, and
  for every legacy input the scriptSig is the input of the payment that the script
  collaborators make of the text \<open>OP_0\<close> followed by the pushes of the signatures, each
  without its sighash type and with \<open>01\<close>, in the order of the public keys of the
  descriptor: first the signature that resolves to the first key, if there is one, and so
  on. Any permutation of the rows returns the same transaction.
\<close>

theorem legacy_signatures_in_public_key_order:
  assumes "unsignedMultisigTransaction c net inputs outputs = Inr utx"
    and "length (ins utx) = length inputs"
    and "rows \<noteq> []" and "\<forall>row\<in>set rows. length inputs \<le> length row"
    and "\<forall>i<length inputs. input_ready c net inputs outputs rows i"
    and "mset rows' = mset rows"
  shows "\<exists>tx. signedMultisigTransaction c net inputs outputs rows = Inr tx
           \<and> signedMultisigTransaction c net inputs outputs rows' = Inr tx
           \<and> (\<forall>i<length inputs. legacy (input_multisig (inputs ! i)) \<longrightarrow>
                 (\<exists>script raw scriptSig.
                     fromASM c
                       (''OP_0 '' @ join '' ''
                          (map (\<lambda>s. signatureNoSighashType c s @ ''01'')
                             (concat (map (\<lambda>pk. filter (\<lambda>s. validateMultisigSignature c net inputs outputs i s
                                                                  = Inr (Some pk)
                                                                \<and> signatureNoSighashType c s \<noteq> '''')
                                                    (inputSignatures rows i))
                                        (multisigPublicKeys (input_multisig (inputs ! i)))))))
                       = Inr script
                   \<and> p2ms c (multisig_network (input_multisig (inputs ! i)))
                        (payment_output (multisigRedeemScript (input_multisig (inputs ! i)))) script
                       = Inr raw
                   \<and> generateMultisigFromRaw c (multisigAddressType (input_multisig (inputs ! i))) raw
                       = Inr scriptSig
                   \<and> in_script (ins tx ! i) = payment_input scriptSig))"
proof -
  have rows': "rows' \<noteq> []" "\<forall>row\<in>set rows'. length inputs \<le> length row"
    using assms(3,4,6) by (auto dest: mset_eq_setD)
  have checked: "checkRows (length inputs) 0 rows = None" "checkRows (length inputs) 0 rows' = None"
    using assms(4) rows'(2) by (simp_all add: checkRows_None_iff)
  have "\<forall>i\<in>set [0..<length inputs]. input_ready c net inputs outputs rows i"
    and "\<forall>i\<in>set [0..<length inputs]. i < length (ins utx)" and "distinct [0..<length inputs]"
    using assms(2,5) by simp_all
  from signInputs_ready [OF this(1) assms(6) this(2) this(3)]
  obtain tx where signed: "signInputs c net inputs outputs rows [0..<length inputs] utx = Inr tx"
    "signInputs c net inputs outputs rows' [0..<length inputs] utx = Inr tx"
    and scripts: "\<forall>i\<in>set [0..<length inputs]. legacy (input_multisig (inputs ! i)) \<longrightarrow>
                 (\<exists>p. script_of_asm c (input_multisig (inputs ! i))
                         (signature_pushes (signatureNoSighashType c)
                            (key_ordered (validateMultisigSignature c net inputs outputs i)
                               (signatureNoSighashType c)
                               (multisigPublicKeys (input_multisig (inputs ! i)))
                               (inputSignatures rows i))) = Inr p
                     \<and> in_script (ins tx ! i) = payment_input p)"
    by blast
  have unfolded: "\<exists>script raw scriptSig.
                     fromASM c asm = Inr script
                   \<and> p2ms c (multisig_network m) (payment_output (multisigRedeemScript m)) script = Inr raw
                   \<and> generateMultisigFromRaw c (multisigAddressType m) raw = Inr scriptSig
                   \<and> s = payment_input scriptSig"
    if "script_of_asm c m asm = Inr p" and "s = payment_input p" for m asm p s
    using that by (auto simp: script_of_asm_def split: sum.splits)
  have "\<forall>i<length inputs. legacy (input_multisig (inputs ! i)) \<longrightarrow>
                 (\<exists>script raw scriptSig.
                     fromASM c
                       (signature_pushes (signatureNoSighashType c)
                            (key_ordered (validateMultisigSignature c net inputs outputs i)
                               (signatureNoSighashType c)
                               (multisigPublicKeys (input_multisig (inputs ! i)))
                               (inputSignatures rows i)))
                       = Inr script
                   \<and> p2ms c (multisig_network (input_multisig (inputs ! i)))
                        (payment_output (multisigRedeemScript (input_multisig (inputs ! i)))) script
                       = Inr raw
                   \<and> generateMultisigFromRaw c (multisigAddressType (input_multisig (inputs ! i))) raw
                       = Inr scriptSig
                   \<and> in_script (ins tx ! i) = payment_input scriptSig)"
  proof (intro allI impI)
    fix i assume "i < length inputs" and "legacy (input_multisig (inputs ! i))"
    with scripts obtain p where "script_of_asm c (input_multisig (inputs ! i))
                         (signature_pushes (signatureNoSighashType c)
                            (key_ordered (validateMultisigSignature c net inputs outputs i)
                               (signatureNoSighashType c)
                               (multisigPublicKeys (input_multisig (inputs ! i)))
                               (inputSignatures rows i))) = Inr p"
      and "in_script (ins tx ! i) = payment_input p"
      by auto
    then show "\<exists>script raw scriptSig.
                     fromASM c
                       (signature_pushes (signatureNoSighashType c)
                            (key_ordered (validateMultisigSignature c net inputs outputs i)
                               (signatureNoSighashType c)
                               (multisigPublicKeys (input_multisig (inputs ! i)))
                               (inputSignatures rows i)))
                       = Inr script
                   \<and> p2ms c (multisig_network (input_multisig (inputs ! i)))
                        (payment_output (multisigRedeemScript (input_multisig (inputs ! i)))) script
                       = Inr raw
                   \<and> generateMultisigFromRaw c (multisigAddressType (input_multisig (inputs ! i))) raw
                       = Inr scriptSig
                   \<and> in_script (ins tx ! i) = payment_input scriptSig"
      by (rule unfolded)
  qed
  then have "\<forall>i<length inputs. legacy (input_multisig (inputs ! i)) \<longrightarrow>
                 (\<exists>script raw scriptSig.
                     fromASM c
                       (''OP_0 '' @ join '' ''
                          (map (\<lambda>s. signatureNoSighashType c s @ ''01'')
                             (concat (map (\<lambda>pk. filter (\<lambda>s. validateMultisigSignature c net inputs outputs i s
                                                                  = Inr (Some pk)
                                                                \<and> signatureNoSighashType c s \<noteq> '''')
                                                    (inputSignatures rows i))
                                        (multisigPublicKeys (input_multisig (inputs ! i)))))))
                       = Inr script
                   \<and> p2ms c (multisig_network (input_multisig (inputs ! i)))
                        (payment_output (multisigRedeemScript (input_multisig (inputs ! i)))) script
                       = Inr raw
                   \<and> generateMultisigFromRaw c (multisigAddressType (input_multisig (inputs ! i))) raw
                       = Inr scriptSig
                   \<and> in_script (ins tx ! i) = payment_input scriptSig)"
    unfolding signature_pushes_def key_ordered_def .
  moreover have "signedMultisigTransaction c net inputs outputs rows = Inr tx"
    and "signedMultisigTransaction c net inputs outputs rows' = Inr tx"
    using assms(1,3) rows'(1) checked signed by (simp_all add: signedMultisigTransaction_def)
  ultimately show ?thesis by blast
qed

text \<open>
  On the sample collaborators, which keep the text of the input script: the rows bring the
  signature of the third key before the one of the first key, and the script has the one
  of the first key first.
\<close>

theorem legacy_signatures_in_public_key_order_witness:
  "\<exists>tx. signedMultisigTransaction sample_tx_libs TESTNET [sample_input 0] sample_outputs
           [[Some ''3044cc''], [Some ''3044aa'']] = Inr tx
      \<and> signedMultisigTransaction sample_tx_libs TESTNET [sample_input 0] sample_outputs
           [[Some ''3044aa''], [Some ''3044cc'']] = Inr tx
      \<and> in_script (ins tx ! 0) = map of_char ''OP_0 3044aa01 3044cc01'' @ [0x52, 0x53, 0xae]"
proof -
  define rows where "rows = [[Some ''3044cc''], [Some ''3044aa'']]"
  define rows' where "rows' = [[Some ''3044aa''], [Some ''3044cc'']]"
  define inputs where "inputs = [sample_input 0]"
  define utx where "utx = \<lparr>tx_version = 1,
      ins = [\<lparr>in_hash = ''ae'', in_index = 0, in_script = [], in_witness = []\<rparr>],
      outs = [(map of_char ''2N'', 90000)]\<rparr>"
  have u: "unsignedMultisigTransaction sample_tx_libs TESTNET inputs sample_outputs = Inr utx"
    by (simp add: unsignedMultisigTransaction_def inputs_def utx_def tx_sample_defs)
  have len: "length (ins utx) = length inputs"
    by (simp add: utx_def inputs_def)
  have r: "rows \<noteq> []" "\<forall>row\<in>set rows. length inputs \<le> length row"
    by (simp_all add: rows_def inputs_def)
  have sigs: "inputSignatures rows 0 = [''3044cc'', ''3044aa'']"
    by (simp add: rows_def inputSignatures_def at_index_def truthy_def)
  have ordered: "key_ordered (validateMultisigSignature sample_tx_libs TESTNET inputs sample_outputs 0)
                   (signatureNoSighashType sample_tx_libs)
                   (multisigPublicKeys (input_multisig (inputs ! 0))) (inputSignatures rows 0)
                 = [''3044aa'', ''3044cc'']"
    by (simp add: sigs key_ordered_def inputs_def tx_sample_defs)
  have pushes: "signature_pushes (signatureNoSighashType sample_tx_libs) [''3044aa'', ''3044cc'']
                 = ''OP_0 3044aa01 3044cc01''"
    by (simp add: signature_pushes_def sample_tx_libs_def)
  have script: "script_of_asm sample_tx_libs (input_multisig (inputs ! 0)) ''OP_0 3044aa01 3044cc01''
                 = Inr \<lparr>payment_input = map of_char ''OP_0 3044aa01 3044cc01'' @ [0x52, 0x53, 0xae],
                        payment_output = []\<rparr>"
    by (simp add: script_of_asm_def inputs_def tx_sample_defs)
  have keys: "\<forall>k\<in>set (multisigPublicKeys (input_multisig (inputs ! 0))). public_key k"
    by (simp add: inputs_def tx_sample_defs public_key_def hex_digit_def)
  have ready: "\<forall>i<length inputs. input_ready sample_tx_libs TESTNET inputs sample_outputs rows i"
  proof -
    have "input_ready sample_tx_libs TESTNET inputs sample_outputs rows 0"
      unfolding input_ready_def Let_def ordered pushes script
      using keys
      by (simp add: sigs valid_signatures_def public_key_def hex_digit_def)
         (simp add: inputs_def tx_sample_defs public_key_def hex_digit_def)
    then show ?thesis
      by (simp add: inputs_def)
  qed
  have perm: "mset rows' = mset rows"
    by (simp add: rows_def rows'_def)
  have first: "0 < length inputs" and leg: "legacy (input_multisig (inputs ! 0))"
    by (simp_all add: legacy_def inputs_def tx_sample_defs)
  have asm: "''OP_0 '' @ join '' ''
                (map (\<lambda>s. signatureNoSighashType sample_tx_libs s @ ''01'')
                   (concat (map (\<lambda>pk. filter (\<lambda>s. validateMultisigSignature sample_tx_libs TESTNET inputs
                                                        sample_outputs 0 s = Inr (Some pk)
                                                      \<and> signatureNoSighashType sample_tx_libs s \<noteq> '''')
                                          (inputSignatures rows 0))
                              (multisigPublicKeys (input_multisig (inputs ! 0))))))
              = ''OP_0 3044aa01 3044cc01''"
    using ordered pushes by (simp add: key_ordered_def signature_pushes_def)
  from legacy_signatures_in_public_key_order [OF u len r ready perm]
  obtain tx where tx: "signedMultisigTransaction sample_tx_libs TESTNET inputs sample_outputs rows = Inr tx"
    "signedMultisigTransaction sample_tx_libs TESTNET inputs sample_outputs rows' = Inr tx"
    and scripts: "\<forall>i<length inputs. legacy (input_multisig (inputs ! i)) \<longrightarrow>
                 (\<exists>script raw scriptSig.
                     fromASM sample_tx_libs
                       (''OP_0 '' @ join '' ''
                          (map (\<lambda>s. signatureNoSighashType sample_tx_libs s @ ''01'')
                             (concat (map (\<lambda>pk. filter (\<lambda>s. validateMultisigSignature sample_tx_libs TESTNET
                                                                  inputs sample_outputs i s
                                                                  = Inr (Some pk)
                                                                \<and> signatureNoSighashType sample_tx_libs s \<noteq> '''')
                                                    (inputSignatures rows i))
                                        (multisigPublicKeys (input_multisig (inputs ! i)))))))
                       = Inr script
                   \<and> p2ms sample_tx_libs (multisig_network (input_multisig (inputs ! i)))
                        (payment_output (multisigRedeemScript (input_multisig (inputs ! i)))) script
                       = Inr raw
                   \<and> generateMultisigFromRaw sample_tx_libs
                        (multisigAddressType (input_multisig (inputs ! i))) raw
                       = Inr scriptSig
                   \<and> in_script (ins tx ! i) = payment_input scriptSig)"
    by blast
  from scripts [rule_format, OF first leg]
  obtain script raw scriptSig
    where "fromASM sample_tx_libs ''OP_0 3044aa01 3044cc01'' = Inr script"
      and "p2ms sample_tx_libs (multisig_network (input_multisig (inputs ! 0)))
             (payment_output (multisigRedeemScript (input_multisig (inputs ! 0)))) script = Inr raw"
      and "generateMultisigFromRaw sample_tx_libs
             (multisigAddressType (input_multisig (inputs ! 0))) raw = Inr scriptSig"
      and "in_script (ins tx ! 0) = payment_input scriptSig"
    unfolding asm by blast
  then have "in_script (ins tx ! 0) = map of_char ''OP_0 3044aa01 3044cc01'' @ [0x52, 0x53, 0xae]"
    by (auto simp: inputs_def tx_sample_defs)
  with tx show ?thesis
    unfolding rows_def rows'_def inputs_def by blast
qed

end
